theory Spec2Isabelle
  imports Complex_Main "HOL-Library.Sublist"
begin

section \<open>JavaScript values used by the services\<close>

text \<open>
  Strings are lists of code units, so \<open>length\<close> is JavaScript's \<open>.length\<close> and \<open>@\<close> is
  string concatenation. JavaScript numbers that hold similarities, distances and
  thresholds are modelled by the rationals they denote; the rounding error of double
  arithmetic is not modelled. Counters, indices and lengths are natural numbers.
\<close>

type_synonym js_number = rat

text \<open>Decimal rendering of a non-negative integer, as a template literal prints it.\<close>

definition digit_char :: "nat \<Rightarrow> char" where
  "digit_char d = ''0123456789'' ! d"

fun show_nat :: "nat \<Rightarrow> string" where
  "show_nat n = (if n < 10 then [digit_char n] else show_nat (n div 10) @ [digit_char (n mod 10)])"

declare show_nat.simps [simp del]

text \<open>
  \<open>Number.prototype.toFixed(f)\<close>: the integer \<open>n\<close> with \<open>n / 10^f\<close> nearest to \<open>|x|\<close>, the
  larger one on a tie, printed with \<open>f\<close> fraction digits and a sign when \<open>x < 0\<close>
  (the form used for \<open>|x| < 10\<^sup>2\<^sup>1\<close>).
\<close>

definition toFixed_units :: "nat \<Rightarrow> js_number \<Rightarrow> nat" where
  "toFixed_units f x = nat \<lfloor>\<bar>x\<bar> * 10 ^ f + 1 / 2\<rfloor>"

definition toFixed :: "nat \<Rightarrow> js_number \<Rightarrow> string" where
  "toFixed f x =
     (let n = toFixed_units f x;
          m = show_nat (n div 10 ^ f);
          a = show_nat (n mod 10 ^ f)
      in (if x < 0 then ''-'' else '''') @ m @
         (if f = 0 then '''' else ''.'' @ replicate (f - length a) (CHR ''0'') @ a))"

text \<open>\<open>parseFloat(x.toFixed(f))\<close>: the number which the text \<open>toFixed f x\<close> denotes.\<close>

definition parseFloat_toFixed :: "nat \<Rightarrow> js_number \<Rightarrow> js_number" where
  "parseFloat_toFixed f x =
     (if x < 0 then - (of_nat (toFixed_units f x) / 10 ^ f) else of_nat (toFixed_units f x) / 10 ^ f)"

text \<open>\<open>s.includes(sub)\<close>: \<open>sub\<close> occurs in \<open>s\<close> as a contiguous run.\<close>

definition str_includes :: "string \<Rightarrow> string \<Rightarrow> bool" where
  "str_includes s sub = sublist sub s"

text \<open>\<open>x || d\<close> on an optional string: an absent or empty \<open>x\<close> is falsy.\<close>

definition or_else :: "string option \<Rightarrow> string \<Rightarrow> string" where
  "or_else x d = (case x of None \<Rightarrow> d | Some s \<Rightarrow> if s = [] then d else s)"


section \<open>Similarity results\<close>

text \<open>
  The object which \<open>vectorSimilaritySearch\<close> builds for each row and which the prompt
  builder reads. \<open>uploadDate\<close> is a timestamp or null; a timestamp is represented by the
  text \<open>new Date(uploadDate).toISOString()\<close> gives for it. \<open>metadata\<close> and \<open>tags\<close> are
  carried through unchanged.
\<close>

record source_info =
  filename :: "string option"
  fileType :: "string option"
  uploadDate :: "string option"
  tags :: "string list"

record search_result =
  chunkId :: string
  documentId :: string
  chunkIndex :: nat
  chunk_text :: string
  tokenCount :: "nat option"
  metadata :: string
  source :: "source_info option"
  similarity :: js_number


section \<open>Prompt builder (class LLMPromptBuilder)\<close>

definition DEFLECTION_PHRASE :: string where
  \<open>DEFLECTION_PHRASE =
     ''I don't have that information available, but I can connect you with someone who does.''\<close>

definition NO_CONTEXT_BLOCK :: string where
  \<open>NO_CONTEXT_BLOCK =
     ''# KNOWLEDGE BASE CONTEXT\<newline>\<newline>No relevant information found in the knowledge base for this query.\<newline>\<newline>**IMPORTANT:** Only provide information you are certain about. If you cannot answer based on your core knowledge, say: "I don't have that information available, but I can connect you with someone who does."''\<close>

definition CONTEXT_HEADER :: string where
  \<open>CONTEXT_HEADER =
     ''# KNOWLEDGE BASE CONTEXT\<newline>\<newline>You have access to the following information from the company's knowledge base:\<newline>\<newline>''\<close>

definition CONTEXT_RULES :: string where
  \<open>CONTEXT_RULES =
     ''**IMPORTANT RULES:**\<newline>'' @
     ''1. Only provide information from the above documents\<newline>'' @
     ''2. If a question cannot be answered from this context, say: "I don't have that information available, but I can connect you with someone who does."\<newline>'' @
     ''3. Always cite the source when providing information (e.g., "According to [filename]...")\<newline>'' @
     ''4. Do not make assumptions beyond what is explicitly stated\<newline>''\<close>

text \<open>\<open>result.source || {}\<close>\<close>

definition source_or_empty :: "search_result \<Rightarrow> source_info" where
  "source_or_empty result =
     (case source result of
        None \<Rightarrow> \<lparr>filename = None, fileType = None, uploadDate = None, tags = []\<rparr>
      | Some s \<Rightarrow> s)"

text \<open>The first line a source block starts with.\<close>

definition source_heading :: "nat \<Rightarrow> search_result \<Rightarrow> string" where
  "source_heading index result =
     ''## Source '' @ show_nat (index + 1) @ '': '' @
     or_else (filename (source_or_empty result)) ''Unknown'' @ ''\<newline>''"

text \<open>The four \<open>context +=\<close> statements of one \<open>forEach\<close> iteration.\<close>

definition source_block :: "nat \<Rightarrow> search_result \<Rightarrow> string" where
  "source_block index result =
     (let src = source_or_empty result;
          upload = (case uploadDate src of
                      Some d \<Rightarrow> takeWhile (\<lambda>c. c \<noteq> CHR ''T'') d
                    | None \<Rightarrow> ''Unknown date'')
      in source_heading index result @
         ''**Type:** '' @ or_else (fileType src) ''Unknown'' @ '' | **Updated:** '' @ upload @
           '' | **Relevance:** '' @ toFixed 1 (similarity result * 100) @ ''%\<newline>\<newline>'' @
         chunk_text result @ ''\<newline>\<newline>'' @
         ''---\<newline>\<newline>'')"

text \<open>\<open>searchResults.forEach((result, index) => ...)\<close> on the accumulator \<open>context\<close>.\<close>

fun forEach_source :: "string \<Rightarrow> nat \<Rightarrow> search_result list \<Rightarrow> string" where
  "forEach_source context index [] = context"
| "forEach_source context index (result # rest) =
     forEach_source (context @ source_block index result) (Suc index) rest"

text \<open>\<open>None\<close> is a missing (undefined or null) argument.\<close>

definition buildOhmnicContext :: "search_result list option \<Rightarrow> string" where
  "buildOhmnicContext searchResults =
     (case searchResults of
        None \<Rightarrow> NO_CONTEXT_BLOCK
      | Some rs \<Rightarrow>
          if length rs = 0 then NO_CONTEXT_BLOCK
          else forEach_source CONTEXT_HEADER 0 rs @ CONTEXT_RULES)"

definition buildAgentInstructions :: "string option \<Rightarrow> string \<Rightarrow> string option \<Rightarrow> string" where
  "buildAgentInstructions agentType agentName customInstructions =
     (let instructions = ''\<newline># AGENT ROLE\<newline>\<newline>'';
          instructions =
            (if agentType = Some ''voice'' then
               instructions @
               ''You are '' @ agentName @ '', an AI voice assistant. Your responses should be:\<newline>'' @
               ''- Concise and natural for speech\<newline>'' @
               ''- Clear and easy to understand when spoken aloud\<newline>'' @
               ''- Friendly and conversational\<newline>'' @
               ''- Action-oriented (offer to transfer, schedule, etc.)\<newline>\<newline>''
             else if agentType = Some ''chat'' then
               instructions @
               ''You are '' @ agentName @ '', an AI chat assistant. Your responses should be:\<newline>'' @
               ''- Clear and well-formatted\<newline>'' @
               ''- Use bullet points and formatting when helpful\<newline>'' @
               ''- Provide links or references when available\<newline>'' @
               ''- Professional yet friendly\<newline>\<newline>''
             else if agentType = Some ''crm'' then
               instructions @
               ''You are '' @ agentName @ '', an AI customer relationship assistant. Your responses should be:\<newline>'' @
               ''- Detailed and informative\<newline>'' @
               ''- Data-driven when possible\<newline>'' @
               ''- Helpful in managing customer relationships\<newline>'' @
               ''- Professional and courteous\<newline>\<newline>''
             else
               instructions @ ''You are '' @ agentName @ '', an AI assistant.\<newline>\<newline>'')
      in case customInstructions of
           None \<Rightarrow> instructions
         | Some c \<Rightarrow>
             if c = [] then instructions
             else instructions @ ''## Additional Instructions\<newline>\<newline>'' @ c @ ''\<newline>\<newline>'')"

record message =
  role :: string
  content :: string

fun forEach_message :: "string \<Rightarrow> message list \<Rightarrow> string" where
  "forEach_message historySection [] = historySection"
| "forEach_message historySection (msg # rest) =
     forEach_message
       (historySection @ ''**'' @ role msg @ '':** '' @ content msg @ ''\<newline>\<newline>'') rest"

text \<open>
  The option bag of \<open>buildPrompt\<close>; \<open>None\<close> is a key that is not given, for which the
  destructuring default applies.
\<close>

record prompt_options =
  searchResults :: "search_result list option"
  agentType :: "string option"
  agentName :: "string option"
  customInstructions :: "string option"
  userQuery :: "string option"
  conversationHistory :: "message list option"

record section_lengths =
  systemPrompt_len :: nat
  ohmnicContext_len :: nat
  agentInstructions_len :: nat
  conversationHistory_len :: nat
  userQuery_len :: nat

record prompt_document =
  prompt :: string
  sections :: section_lengths
  totalLength :: nat

text \<open>
  \<open>getSystemPrompt\<close> returns the cached preamble when the cache holds a non-empty text and
  otherwise stores the compliance text and returns it. The text is a fixed literal of some
  eighty lines; the model takes it as the parameter \<open>literal\<close>. The second component is
  the cache afterwards.
\<close>

definition getSystemPrompt :: "string \<Rightarrow> string option \<Rightarrow> string \<times> string option" where
  "getSystemPrompt literal systemPromptCache =
     (case systemPromptCache of
        Some c \<Rightarrow> if c \<noteq> [] then (c, systemPromptCache) else (literal, Some literal)
      | None \<Rightarrow> (literal, Some literal))"

definition buildPrompt ::
  "string \<Rightarrow> string option \<Rightarrow> prompt_options \<Rightarrow> prompt_document \<times> string option" where
  "buildPrompt literal systemPromptCache options =
     (let rs = (case searchResults options of None \<Rightarrow> Some [] | Some r \<Rightarrow> Some r);
          aType = (case agentType options of None \<Rightarrow> Some ''chat'' | Some t \<Rightarrow> Some t);
          aName = (case agentName options of None \<Rightarrow> ''AI Assistant'' | Some n \<Rightarrow> n);
          history = (case conversationHistory options of None \<Rightarrow> [] | Some h \<Rightarrow> h);
          (systemPrompt, cache') = getSystemPrompt literal systemPromptCache;
          ohmnicContext = buildOhmnicContext rs;
          agentInstructions = buildAgentInstructions aType aName (customInstructions options);
          historySection =
            (if length history > 0
             then forEach_message ''\<newline># CONVERSATION HISTORY\<newline>\<newline>'' history
             else '''');
          querySection =
            (case userQuery options of
               None \<Rightarrow> ''''
             | Some q \<Rightarrow> if q = [] then '''' else ''\<newline># USER QUERY\<newline>\<newline>'' @ q @ ''\<newline>'');
          fullPrompt = systemPrompt @ ''\<newline>\<newline>'' @ ohmnicContext @ ''\<newline>\<newline>'' @
                       agentInstructions @ historySection @ querySection
      in (\<lparr>prompt = fullPrompt,
           sections = \<lparr>systemPrompt_len = length systemPrompt,
                       ohmnicContext_len = length ohmnicContext,
                       agentInstructions_len = length agentInstructions,
                       conversationHistory_len = length historySection,
                       userQuery_len = length querySection\<rparr>,
           totalLength = length fullPrompt\<rparr>, cache'))"

definition estimateTokenCount :: "string \<Rightarrow> int" where
  "estimateTokenCount txt = \<lceil>rat_of_nat (length txt) / 4\<rceil>"

record budget_report =
  withinLimit :: bool
  estimatedTokens :: int
  maxTokens :: int
  excessTokens :: "int option"

text \<open>\<open>None\<close> for \<open>maxTokens\<close> is the omitted argument, with default 128000.\<close>

definition checkTokenLimit :: "string \<Rightarrow> int option \<Rightarrow> budget_report" where
  "checkTokenLimit prompt_text maxTokens_arg =
     (let maxT = (case maxTokens_arg of None \<Rightarrow> 128000 | Some m \<Rightarrow> m);
          estimated = estimateTokenCount prompt_text
      in if estimated > maxT
         then \<lparr>withinLimit = False, estimatedTokens = estimated, maxTokens = maxT,
               excessTokens = Some (estimated - maxT)\<rparr>
         else \<lparr>withinLimit = True, estimatedTokens = estimated, maxTokens = maxT,
               excessTokens = None\<rparr>)"


section \<open>Errors, the outside world and its trace\<close>

text \<open>
  A thrown value: \<open>new Error(msg)\<close> has a message and no status; an error of the upstream
  client may carry an HTTP status. \<open>message_text\<close> is what \<open>${error.message}\<close> prints.
\<close>

record js_error =
  status :: "nat option"
  message :: "string option"

definition Error :: "string \<Rightarrow> js_error" where
  "Error msg = \<lparr>status = None, message = Some msg\<rparr>"

definition message_text :: "js_error \<Rightarrow> string" where
  "message_text error = (case message error of None \<Rightarrow> ''undefined'' | Some m \<Rightarrow> m)"

text \<open>A JavaScript argument that is expected to be a text.\<close>

datatype js_value = Undefined | Null | Num js_number | Str string

type_synonym embedding_vec = "js_number list"

text \<open>The request and the response of \<open>openai.embeddings.create\<close>.\<close>

datatype embed_input = Single string | Batch "string list"

record request =
  req_model :: string
  req_input :: embed_input
  encoding_format :: string

record data_item =
  embedding :: embedding_vec

record api_response =
  data :: "data_item list"

text \<open>
  What a call does to the outside world, in order: a call of the embedding upstream, a
  timer wait in milliseconds, the SELECT on the chunk tables with its parameters (query
  vector, tenant, document filter, threshold, limit), the INSERT into the query log
  (tenant, query text, result count, response time) and a \<open>console.error\<close> diagnostic.
\<close>

datatype event =
    EmbeddingsCreate request
  | SetTimeout nat
  | SelectChunks embedding_vec "string option" "string list option" js_number nat
  | InsertQueryLog "string option" string nat int
  | ConsoleError string

type_synonym world = "event list"

type_synonym 'a action = "world \<Rightarrow> (js_error + 'a) \<times> world"

fun is_upstream_call :: "event \<Rightarrow> bool" where
  "is_upstream_call (EmbeddingsCreate r) = True"
| "is_upstream_call e = False"

text \<open>
  A row of \<open>ohmnic_document_chunks c JOIN ohmnic_documents d ON c.document_id = d.id\<close>.
\<close>

record chunk_row =
  row_id :: string
  row_document_id :: string
  row_tenant_id :: string
  row_chunk_index :: nat
  row_chunk_text :: string
  row_token_count :: "nat option"
  row_metadata :: string
  row_embedding :: "embedding_vec option"
  row_filename :: "string option"
  row_file_type :: "string option"
  row_upload_date :: "string option"
  row_tags :: "string list"

text \<open>
  The collaborators, which are not part of the repository: the embedding upstream
  (its answer to the k-th call made), the rows of the chunk store in the order the
  executor meets them, pgvector's distance operator \<open><=>\<close>, whether the SELECT and the
  INSERT fail, and the clock as a function of what has happened so far.
\<close>

record env =
  embeddings_create :: "nat \<Rightarrow> request \<Rightarrow> js_error + api_response"
  chunk_rows :: "chunk_row list"
  vector_distance :: "embedding_vec \<Rightarrow> embedding_vec \<Rightarrow> js_number"
  select_error :: "js_error option"
  insert_error :: "js_error option"
  date_now :: "world \<Rightarrow> int"


section \<open>Embedding service (class EmbeddingService)\<close>

definition embedding_model :: string where
  "embedding_model = ''text-embedding-3-large''"

definition dimensions :: nat where
  "dimensions = 3072"

definition maxRetries :: nat where
  "maxRetries = 3"

definition batchSize :: nat where
  "batchSize = 100"

definition retryableStatuses :: "nat list" where
  "retryableStatuses = [429, 500, 502, 503, 504]"

definition retryableMessages :: "string list" where
  "retryableMessages = [''timeout'', ''network'', ''ECONNRESET'', ''ETIMEDOUT'']"

text \<open>\<open>toLowerCase\<close> on the letters A to Z; other code units are kept.\<close>

definition lower_char :: "char \<Rightarrow> char" where
  "lower_char c =
     (let n = (of_char c :: nat) in if 65 \<le> n \<and> n \<le> 90 then char_of (n + 32) else c)"

definition toLowerCase :: "string \<Rightarrow> string" where
  "toLowerCase s = map lower_char s"

definition isRetryableError :: "js_error \<Rightarrow> bool" where
  "isRetryableError error =
     (if (case status error of None \<Rightarrow> False | Some s \<Rightarrow> s \<noteq> 0 \<and> s \<in> set retryableStatuses)
      then True
      else (case message error of
              None \<Rightarrow> False
            | Some m \<Rightarrow>
                if m \<noteq> []
                then list_ex (\<lambda>msg. str_includes (toLowerCase m) (toLowerCase msg)) retryableMessages
                else False))"

text \<open>
  The loop of \<open>retryWithBackoff\<close> from iteration \<open>i\<close>. Falling out of the loop returns
  undefined, which is \<open>Inr None\<close>.
\<close>

function retry_loop :: "'a action \<Rightarrow> nat \<Rightarrow> nat \<Rightarrow> world \<Rightarrow> (js_error + 'a option) \<times> world" where
  "retry_loop fn retries i w =
     (if i < retries then
        (case fn w of
           (Inr r, w') \<Rightarrow> (Inr (Some r), w')
         | (Inl error, w') \<Rightarrow>
             if \<not> isRetryableError error \<or> i = retries - 1 then (Inl error, w')
             else retry_loop fn retries (i + 1) (w' @ [SetTimeout (2 ^ i * 1000)]))
      else (Inr None, w))"
  by pat_completeness auto
termination
  by (relation "measure (\<lambda>(fn, retries, i, w). retries - i)") auto

declare retry_loop.simps [simp del]

definition retryWithBackoff :: "'a action \<Rightarrow> nat \<Rightarrow> world \<Rightarrow> (js_error + 'a option) \<times> world" where
  "retryWithBackoff fn retries w = retry_loop fn retries 0 w"

text \<open>
  \<open>this.openai.embeddings.create({model, input, encoding_format: 'float'})\<close>: the upstream
  answers according to how many calls were made before, and the call is recorded.
\<close>

definition create_request :: "embed_input \<Rightarrow> request" where
  "create_request inp = \<lparr>req_model = embedding_model, req_input = inp, encoding_format = ''float''\<rparr>"

definition openai_embeddings_create :: "env \<Rightarrow> embed_input \<Rightarrow> api_response action" where
  "openai_embeddings_create ev inp w =
     (embeddings_create ev (length (filter is_upstream_call w)) (create_request inp),
      w @ [EmbeddingsCreate (create_request inp)])"

text \<open>The \<open>catch\<close> block of \<open>generateEmbedding\<close>.\<close>

definition embedding_failed :: "js_error \<Rightarrow> world \<Rightarrow> (js_error + embedding_vec) \<times> world" where
  "embedding_failed error w =
     (Inl (Error (''Failed to generate embedding: '' @ message_text error)),
      w @ [ConsoleError ''[OHMNIC EMBEDDING] Error generating embedding:''])"

definition generateEmbedding :: "env \<Rightarrow> js_value \<Rightarrow> world \<Rightarrow> (js_error + embedding_vec) \<times> world" where
  \<open>generateEmbedding ev txt w =
     (case txt of
        Str t \<Rightarrow>
          if t = [] then (Inl (Error ''Invalid text input for embedding generation''), w)
          else
            (case retryWithBackoff (openai_embeddings_create ev (Single t)) maxRetries w of
               (Inl error, w') \<Rightarrow> embedding_failed error w'
             | (Inr None, w') \<Rightarrow>
                 embedding_failed
                   (Error ''Cannot read properties of undefined (reading 'data')'') w'
             | (Inr (Some response), w') \<Rightarrow>
                 (case data response of
                    [] \<Rightarrow>
                      embedding_failed
                        (Error ''Cannot read properties of undefined (reading 'embedding')'') w'
                  | item # rest \<Rightarrow>
                      if length (embedding item) \<noteq> dimensions
                      then embedding_failed
                             (Error (''Invalid embedding dimensions: expected '' @
                                     show_nat dimensions @ '', got '' @
                                     show_nat (length (embedding item)))) w'
                      else (Inr (embedding item), w')))
      | _ \<Rightarrow> (Inl (Error ''Invalid text input for embedding generation''), w))\<close>

text \<open>\<open>array.slice(s, e)\<close> for \<open>0 \<le> s \<le> e\<close>.\<close>

definition slice :: "'a list \<Rightarrow> nat \<Rightarrow> nat \<Rightarrow> 'a list" where
  "slice array s e = take (e - s) (drop s array)"

text \<open>
  The loop of \<open>createBatches\<close> from index \<open>i\<close>; with \<open>batchSize = 0\<close> it does not end, which
  is the value \<open>None\<close>.
\<close>

partial_function (option) createBatches_loop ::
  "'a list \<Rightarrow> nat \<Rightarrow> nat \<Rightarrow> 'a list list \<Rightarrow> 'a list list option" where
  "createBatches_loop array bsize i batches =
     (if i < length array
      then createBatches_loop array bsize (i + bsize) (batches @ [slice array i (i + bsize)])
      else Some batches)"

definition createBatches :: "'a list \<Rightarrow> nat \<Rightarrow> 'a list list option" where
  "createBatches array bsize = createBatches_loop array bsize 0 []"

text \<open>The \<open>catch\<close> block inside the batch loop; \<open>i\<close> is the zero-based loop index.\<close>

definition batch_failed :: "nat \<Rightarrow> js_error \<Rightarrow> world \<Rightarrow> (js_error + embedding_vec list) \<times> world" where
  "batch_failed i error w =
     (Inl (Error (''Failed to generate embeddings for batch '' @ show_nat (i + 1) @ '': '' @
                  message_text error)),
      w @ [ConsoleError (''[OHMNIC EMBEDDING] Batch '' @ show_nat (i + 1) @ '' failed:'')])"

text \<open>The \<open>for\<close> loop over the batches, from batch \<open>i\<close> with \<open>allEmbeddings\<close> collected so far.\<close>

fun batch_loop ::
  "env \<Rightarrow> string list list \<Rightarrow> nat \<Rightarrow> embedding_vec list \<Rightarrow> world \<Rightarrow>
   (js_error + embedding_vec list) \<times> world" where
  "batch_loop ev [] i allEmbeddings w = (Inr allEmbeddings, w)"
| "batch_loop ev (batch # rest) i allEmbeddings w =
     (case retryWithBackoff (openai_embeddings_create ev (Batch batch)) maxRetries w of
        (Inl error, w') \<Rightarrow> batch_failed i error w'
      | (Inr None, w') \<Rightarrow>
          batch_failed i (Error ''Cannot read properties of undefined (reading 'data')'') w'
      | (Inr (Some response), w') \<Rightarrow>
          batch_loop ev rest (i + 1) (allEmbeddings @ map embedding (data response)) w')"

text \<open>
  \<open>None\<close> as the argument is a value that is not an array; \<open>None\<close> as the result is a call
  that does not return.
\<close>

definition generateBatchEmbeddings ::
  "env \<Rightarrow> string list option \<Rightarrow> world \<Rightarrow> ((js_error + embedding_vec list) \<times> world) option" where
  "generateBatchEmbeddings ev texts w =
     (case texts of
        None \<Rightarrow> Some (Inl (Error ''Invalid texts array for batch embedding generation''), w)
      | Some ts \<Rightarrow>
          if length ts = 0
          then Some (Inl (Error ''Invalid texts array for batch embedding generation''), w)
          else (case createBatches ts batchSize of
                  None \<Rightarrow> None
                | Some batches \<Rightarrow> Some (batch_loop ev batches 0 [] w)))"


section \<open>Vector search (class VectorSearch)\<close>

definition defaultTopK :: nat where
  "defaultTopK = 5"

definition default_similarityThreshold :: js_number where
  "default_similarityThreshold = 1 / 10"

text \<open>The option bag of \<open>search\<close>; \<open>None\<close> is a key that is not given.\<close>

record search_options =
  topK :: "nat option"
  similarityThreshold :: "js_number option"
  documentIds :: "string list option"

record search_response =
  results :: "search_result list"
  query_text :: string
  count :: nat
  responseTimeMs :: int

text \<open>
  What the SELECT statement of \<open>vectorSimilaritySearch\<close> computes on the rows. A row whose
  embedding is NULL is dropped by \<open>c.embedding IS NOT NULL\<close>; the others are paired with the
  value of \<open>c.embedding <=> $1\<close>. \<open>c.tenant_id = $2\<close> holds for no row when the parameter is
  NULL. The document filter is part of the statement only when \<open>documentIds\<close> is a
  non-empty array. \<open>ORDER BY\<close> names the distance only: rows of equal distance stay in the
  order in which the executor met them, which is the order of the row list.
\<close>

definition with_distance ::
  "(embedding_vec \<Rightarrow> embedding_vec \<Rightarrow> js_number) \<Rightarrow> embedding_vec \<Rightarrow> chunk_row \<Rightarrow>
   (js_number \<times> chunk_row) option" where
  "with_distance dop q r =
     (case row_embedding r of None \<Rightarrow> None | Some e \<Rightarrow> Some (dop e q, r))"

definition where_clause ::
  "string option \<Rightarrow> string list option \<Rightarrow> js_number \<Rightarrow> js_number \<times> chunk_row \<Rightarrow> bool" where
  "where_clause tenantId docIds threshold dr =
     (tenantId = Some (row_tenant_id (snd dr)) \<and>
      (case docIds of
         None \<Rightarrow> True
       | Some ids \<Rightarrow> if length ids > 0 then row_document_id (snd dr) \<in> set ids else True) \<and>
      1 - fst dr \<ge> threshold)"

definition select_chunks ::
  "(embedding_vec \<Rightarrow> embedding_vec \<Rightarrow> js_number) \<Rightarrow> chunk_row list \<Rightarrow> embedding_vec \<Rightarrow>
   string option \<Rightarrow> string list option \<Rightarrow> js_number \<Rightarrow> nat \<Rightarrow> (js_number \<times> chunk_row) list" where
  "select_chunks dop rows q tenantId docIds threshold k =
     take k
       (sort_key fst
          (filter (where_clause tenantId docIds threshold)
             (List.map_filter (with_distance dop q) rows)))"

text \<open>The object built from one row; \<open>row.similarity\<close> is \<open>1 - distance\<close>.\<close>

definition row_to_result :: "js_number \<times> chunk_row \<Rightarrow> search_result" where
  "row_to_result dr =
     (let row = snd dr in
      \<lparr>chunkId = row_id row,
       documentId = row_document_id row,
       chunkIndex = row_chunk_index row,
       chunk_text = row_chunk_text row,
       tokenCount = row_token_count row,
       metadata = row_metadata row,
       source = Some \<lparr>filename = row_filename row, fileType = row_file_type row,
                      uploadDate = row_upload_date row, tags = row_tags row\<rparr>,
       similarity = parseFloat_toFixed 4 (1 - fst dr)\<rparr>)"

definition vectorSimilaritySearch ::
  "env \<Rightarrow> embedding_vec \<Rightarrow> string option \<Rightarrow> nat \<Rightarrow> js_number \<Rightarrow> string list option \<Rightarrow>
   world \<Rightarrow> (js_error + search_result list) \<times> world" where
  "vectorSimilaritySearch ev queryEmbedding tenantId k threshold docIds w =
     (let w' = w @ [SelectChunks queryEmbedding tenantId docIds threshold k] in
      case select_error ev of
        Some error \<Rightarrow> (Inl error, w')
      | None \<Rightarrow>
          (Inr (map row_to_result
                  (select_chunks (vector_distance ev) (chunk_rows ev) queryEmbedding
                     tenantId docIds threshold k)), w'))"

text \<open>\<open>logQuery\<close> returns nothing; a failed INSERT is caught and reported.\<close>

definition logQuery :: "env \<Rightarrow> string \<Rightarrow> string option \<Rightarrow> nat \<Rightarrow> int \<Rightarrow> world \<Rightarrow> world" where
  "logQuery ev queryText tenantId resultsCount ms w =
     (let w' = w @ [InsertQueryLog tenantId queryText resultsCount ms] in
      case insert_error ev of
        None \<Rightarrow> w'
      | Some error \<Rightarrow> w' @ [ConsoleError ''[OHMNIC SEARCH] Failed to log query:''])"

text \<open>The \<open>catch\<close> block of \<open>search\<close>.\<close>

definition search_failed :: "js_error \<Rightarrow> world \<Rightarrow> (js_error + search_response) \<times> world" where
  "search_failed error w =
     (Inl (Error (''Semantic search failed: '' @ message_text error)),
      w @ [ConsoleError ''[OHMNIC SEARCH] Search error:''])"

text \<open>
  \<open>generateEmbedding\<close> rejects a query that is not a text, so the query is a text wherever
  it is logged or returned.
\<close>

definition text_of :: "js_value \<Rightarrow> string" where
  "text_of v = (case v of Str t \<Rightarrow> t | _ \<Rightarrow> [])"

definition search ::
  "env \<Rightarrow> js_value \<Rightarrow> string option \<Rightarrow> search_options \<Rightarrow> world \<Rightarrow>
   (js_error + search_response) \<times> world" where
  "search ev query tenantId options w =
     (let k = (case topK options of None \<Rightarrow> defaultTopK | Some n \<Rightarrow> n);
          threshold = (case similarityThreshold options of
                         None \<Rightarrow> default_similarityThreshold | Some t \<Rightarrow> t);
          docIds = documentIds options;
          startTime = date_now ev w
      in case generateEmbedding ev query w of
           (Inl error, w1) \<Rightarrow> search_failed error w1
         | (Inr queryEmbedding, w1) \<Rightarrow>
             (case vectorSimilaritySearch ev queryEmbedding tenantId k threshold docIds w1 of
                (Inl error, w2) \<Rightarrow> search_failed error w2
              | (Inr rs, w2) \<Rightarrow>
                  (let responseTime = date_now ev w2 - startTime;
                       w3 = logQuery ev (text_of query) tenantId (length rs) responseTime w2
                   in (Inr \<lparr>results = rs,
                            query_text = text_of query,
                            count = length rs,
                            responseTimeMs = responseTime\<rparr>, w3))))"

section \<open>Notions used to state the properties\<close>

text \<open>The requests of the upstream calls recorded in a trace, in order.\<close>

definition upstream_requests :: "world \<Rightarrow> request list" where
  "upstream_requests w =
     List.map_filter (\<lambda>e. case e of EmbeddingsCreate r \<Rightarrow> Some r | _ \<Rightarrow> None) w"

text \<open>An answer after which \<open>retryWithBackoff\<close> does not try again by its own choice.\<close>

definition settles :: "js_error + 'a \<Rightarrow> bool" where
  "settles r = (case r of Inr x \<Rightarrow> True | Inl error \<Rightarrow> \<not> isRetryableError error)"

text \<open>
  The events of \<open>k\<close> attempts that are each followed by a wait, the first at loop index
  \<open>i\<close>, and of one more attempt after them.
\<close>

definition attempts_trace :: "request \<Rightarrow> nat \<Rightarrow> nat \<Rightarrow> event list" where
  "attempts_trace req i k =
     concat (map (\<lambda>j. [EmbeddingsCreate req, SetTimeout (2 ^ (i + j) * 1000)]) [0..<k]) @
     [EmbeddingsCreate req]"

text \<open>What \<open>retryWithBackoff\<close> returns for an answer of the upstream.\<close>

definition returned :: "js_error + 'a \<Rightarrow> js_error + 'a option" where
  "returned r = (case r of Inl error \<Rightarrow> Inl error | Inr x \<Rightarrow> Inr (Some x))"


text \<open>The number of upstream calls made so far.\<close>

abbreviation ncalls :: "world \<Rightarrow> nat" where
  "ncalls w \<equiv> length (filter is_upstream_call w)"


text \<open>
  Consecutive batches of \<open>n\<close> elements each, the last one possibly smaller: the
  partition in the words of the specification, against which \<open>createBatches\<close> is compared.
\<close>

function consecutive_batches :: "nat \<Rightarrow> 'a list \<Rightarrow> 'a list list" where
  "consecutive_batches n xs =
     (if n = 0 \<or> xs = [] then [] else take n xs # consecutive_batches n (drop n xs))"
  by pat_completeness auto
termination
  by (relation "measure (\<lambda>(n, xs). length xs)") auto

declare consecutive_batches.simps [simp del]

text \<open>
  The orders of a result list: by similarity, highest first; and the same with results
  of equal similarity in ascending order of their chunk index.
\<close>

definition ranked :: "search_result list \<Rightarrow> bool" where
  "ranked rs = sorted_wrt (\<lambda>a b. similarity a \<ge> similarity b) rs"

definition ranked_ties_by_index :: "search_result list \<Rightarrow> bool" where
  "ranked_ties_by_index rs =
     sorted_wrt (\<lambda>a b. similarity a > similarity b \<or>
                        (similarity a = similarity b \<and> chunkIndex a \<le> chunkIndex b)) rs"

definition all_at_least :: "js_number \<Rightarrow> search_result list \<Rightarrow> bool" where
  "all_at_least t rs = list_all (\<lambda>r. similarity r \<ge> t) rs"


section \<open>Example inputs\<close>

definition example_options :: prompt_options where
  "example_options =
     \<lparr>searchResults = None, agentType = Some ''voice'', agentName = Some ''Ava'',
      customInstructions = None, userQuery = Some ''hours?'', conversationHistory = None\<rparr>"

definition example_result_1 :: search_result where
  "example_result_1 =
     \<lparr>chunkId = ''c-12'', documentId = ''d-1'', chunkIndex = 12,
      chunk_text = ''Returns accepted within 30 days.'', tokenCount = Some 8, metadata = ''{}'',
      source = Some \<lparr>filename = Some ''policies.pdf'', fileType = Some ''pdf'',
                     uploadDate = Some ''2025-01-15T09:30:00.000Z'', tags = []\<rparr>,
      similarity = 62 / 100\<rparr>"

definition example_result_2 :: search_result where
  "example_result_2 =
     \<lparr>chunkId = ''c-40'', documentId = ''d-2'', chunkIndex = 3,
      chunk_text = ''Refunds take 5 business days.'', tokenCount = Some 7, metadata = ''{}'',
      source = Some \<lparr>filename = Some ''faq.md'', fileType = Some ''md'',
                     uploadDate = None, tags = []\<rparr>,
      similarity = 5745 / 10000\<rparr>"


definition unit_vector :: embedding_vec where
  "unit_vector = 1 # replicate 3071 0"

definition example_response :: api_response where
  "example_response = \<lparr>data = [\<lparr>embedding = unit_vector\<rparr>]\<rparr>"

definition short_response :: api_response where
  "short_response = \<lparr>data = [\<lparr>embedding = [1, 0, 0]\<rparr>]\<rparr>"

text \<open>An upstream that is rate limited once, times out once and then answers.\<close>

definition flaky_upstream :: "nat \<Rightarrow> request \<Rightarrow> js_error + api_response" where
  "flaky_upstream n req =
     (if n = 0 then Inl \<lparr>status = Some 429, message = Some ''Rate limit exceeded''\<rparr>
      else if n = 1 then Inl \<lparr>status = None, message = Some ''Connection timeout''\<rparr>
      else Inr example_response)"


definition steady_upstream :: "nat \<Rightarrow> request \<Rightarrow> js_error + api_response" where
  "steady_upstream n req = Inr example_response"

definition short_upstream :: "nat \<Rightarrow> request \<Rightarrow> js_error + api_response" where
  "short_upstream n req = Inr short_response"

text \<open>
  The inner product. For vectors of length one, which the embedding upstream returns,
  the cosine distance is one minus the inner product.
\<close>

definition dot_product :: "embedding_vec \<Rightarrow> embedding_vec \<Rightarrow> js_number" where
  "dot_product a b = sum_list (map2 (*) a b)"

definition unit_cosine_distance :: "embedding_vec \<Rightarrow> embedding_vec \<Rightarrow> js_number" where
  "unit_cosine_distance a b = 1 - dot_product a b"

text \<open>A vector of length one: \<open>32\<^sup>2 + 255\<^sup>2 = 257\<^sup>2\<close>.\<close>

definition slanted_vector :: embedding_vec where
  "slanted_vector = 32 / 257 # 255 / 257 # replicate 3070 0"

definition example_row :: "string \<Rightarrow> string \<Rightarrow> nat \<Rightarrow> embedding_vec option \<Rightarrow> chunk_row" where
  "example_row cid tenant idx emb =
     \<lparr>row_id = cid, row_document_id = ''d-1'', row_tenant_id = tenant, row_chunk_index = idx,
      row_chunk_text = ''Returns accepted within 30 days.'', row_token_count = Some 8,
      row_metadata = ''{}'', row_embedding = emb, row_filename = Some ''policies.pdf'',
      row_file_type = Some ''pdf'', row_upload_date = Some ''2025-01-15T09:30:00.000Z'',
      row_tags = []\<rparr>"

text \<open>
  Two chunks of tenant t1 with the same embedding, stored with the higher chunk index
  first, a chunk of tenant t2 and a chunk of t1 that has no embedding yet.
\<close>

definition example_rows :: "chunk_row list" where
  "example_rows =
     [example_row ''c-7'' ''t1'' 7 (Some slanted_vector),
      example_row ''c-2'' ''t1'' 2 (Some slanted_vector),
      example_row ''c-9'' ''t2'' 0 (Some unit_vector),
      example_row ''c-5'' ''t1'' 5 None]"

definition example_env :: env where
  "example_env =
     \<lparr>embeddings_create = steady_upstream, chunk_rows = example_rows,
      vector_distance = unit_cosine_distance, select_error = None, insert_error = None,
      date_now = (\<lambda>w. 1000 + 40 * int (length w))\<rparr>"

definition flaky_env :: env where
  "flaky_env = example_env\<lparr>embeddings_create := flaky_upstream\<rparr>"

definition short_env :: env where
  "short_env = example_env\<lparr>embeddings_create := short_upstream\<rparr>"


text \<open>An upstream whose first call succeeds and whose later calls are rejected.\<close>

definition rejecting_upstream :: "nat \<Rightarrow> request \<Rightarrow> js_error + api_response" where
  "rejecting_upstream n req =
     (if n = 0 then Inr example_response
      else Inl \<lparr>status = Some 400, message = Some ''Bad request''\<rparr>)"

definition rejecting_env :: env where
  "rejecting_env = example_env\<lparr>embeddings_create := rejecting_upstream\<rparr>"

text \<open>The options and the result of the example search for tenant t1.\<close>

definition fine_threshold_options :: search_options where
  "fine_threshold_options =
     \<lparr>topK = Some 5, similarityThreshold = Some (12451 / 100000), documentIds = None\<rparr>"

definition example_result :: "string \<Rightarrow> nat \<Rightarrow> search_result" where
  "example_result cid idx =
     \<lparr>chunkId = cid, documentId = ''d-1'', chunkIndex = idx,
      chunk_text = ''Returns accepted within 30 days.'', tokenCount = Some 8, metadata = ''{}'',
      source = Some \<lparr>filename = Some ''policies.pdf'', fileType = Some ''pdf'',
                     uploadDate = Some ''2025-01-15T09:30:00.000Z'', tags = []\<rparr>,
      similarity = 1245 / 10000\<rparr>"


section \<open>Verified properties\<close>


subsection \<open>Prompt builder\<close>

lemma ceil_div4: "\<lceil>rat_of_nat n / 4\<rceil> = int ((n + 3) div 4)"
proof -
  have "rat_of_nat n / 4 = of_int (int n) / of_int 4" by simp
  then have "\<lceil>rat_of_nat n / 4\<rceil> = - (- int n div 4)"
    using ceiling_divide_eq_div [of "int n" 4, where ?'a = rat] by simp
  also have "\<dots> = int ((n + 3) div 4)" by (simp add: zdiv_int)
  finally show ?thesis .
qed

text \<open>
  C9. The token estimate is the character length divided by four, rounded up. When the
  estimate exceeds the ceiling, \<open>checkTokenLimit\<close> reports \<open>withinLimit = false\<close> and an excess
  of estimate minus ceiling, for a given ceiling and for the default of 128000. The
  report holds numbers and a flag only; the text is an argument and is not returned.
\<close>

theorem checkTokenLimit_over_budget:
  "estimateTokenCount txt = int ((length txt + 3) div 4) \<and>
   (estimateTokenCount txt > mx \<longrightarrow>
      checkTokenLimit txt (Some mx) =
        \<lparr>withinLimit = False, estimatedTokens = estimateTokenCount txt, maxTokens = mx,
         excessTokens = Some (estimateTokenCount txt - mx)\<rparr>) \<and>
   (estimateTokenCount txt > 128000 \<longrightarrow>
      checkTokenLimit txt None =
        \<lparr>withinLimit = False, estimatedTokens = estimateTokenCount txt, maxTokens = 128000,
         excessTokens = Some (estimateTokenCount txt - 128000)\<rparr>)"
  by (simp add: estimateTokenCount_def checkTokenLimit_def ceil_div4 Let_def)

theorem checkTokenLimit_over_budget_witness:
  "estimateTokenCount ''abcdefghi'' = 3 \<and> estimateTokenCount ''abcdefghi'' > 2 \<and>
   checkTokenLimit ''abcdefghi'' (Some 2) =
     \<lparr>withinLimit = False, estimatedTokens = 3, maxTokens = 2, excessTokens = Some 1\<rparr>"
  using checkTokenLimit_over_budget [of "''abcdefghi''" 2] by simp

text \<open>
  C10. The total length which \<open>buildPrompt\<close> reports is the length of the prompt text it
  returns, and it is the sum of the five reported section lengths plus 4: the two
  separators of two characters each after the preamble and after the context.
\<close>

theorem buildPrompt_totalLength:
  "totalLength (fst (buildPrompt literal cache opts)) =
     length (prompt (fst (buildPrompt literal cache opts))) \<and>
   totalLength (fst (buildPrompt literal cache opts)) =
     systemPrompt_len (sections (fst (buildPrompt literal cache opts))) +
     ohmnicContext_len (sections (fst (buildPrompt literal cache opts))) +
     agentInstructions_len (sections (fst (buildPrompt literal cache opts))) +
     conversationHistory_len (sections (fst (buildPrompt literal cache opts))) +
     userQuery_len (sections (fst (buildPrompt literal cache opts))) + 4"
  by (simp add: buildPrompt_def Let_def split: prod.splits)

lemma example_prompt_sections:
  "sections (fst (buildPrompt ''RULES'' None example_options)) =
     \<lparr>systemPrompt_len = 5, ohmnicContext_len = 301, agentInstructions_len = 244,
      conversationHistory_len = 0, userQuery_len = 22\<rparr>"
  by code_simp

theorem buildPrompt_totalLength_witness:
  "totalLength (fst (buildPrompt ''RULES'' None example_options)) = 576 \<and>
   length (prompt (fst (buildPrompt ''RULES'' None example_options))) = 5 + 301 + 244 + 0 + 22 + 4"
  using buildPrompt_totalLength [of "''RULES''" None example_options]
  by (simp add: example_prompt_sections)

lemma forEach_source_concat:
  "forEach_source ctx i rs = ctx @ concat (map2 source_block [i..<i + length rs] rs)"
proof (induction rs arbitrary: ctx i)
  case Nil
  show ?case by simp
next
  case (Cons r rs)
  have e: "i + length (r # rs) = Suc i + length rs" by simp
  have h: "[i..<i + length (r # rs)] = i # [Suc i..<Suc i + length rs]"
    unfolding e by (rule upt_conv_Cons) simp
  show ?case unfolding h by (simp add: Cons.IH)
qed

lemma concat_two_positions:
  assumes "i < j" "j < length bs"
  shows "\<exists>a b c. concat bs = a @ bs ! i @ b @ bs ! j @ c"
proof -
  let ?ds = "drop (Suc i) bs"
  have bs: "bs = take i bs @ bs ! i # ?ds"
    using assms by (simp add: id_take_nth_drop)
  have k: "j - Suc i < length ?ds" using assms by simp
  have dj: "?ds ! (j - Suc i) = bs ! j" using assms by simp
  have ds: "?ds = take (j - Suc i) ?ds @ bs ! j # drop (Suc (j - Suc i)) ?ds"
    using id_take_nth_drop [OF k] dj by simp
  have "concat bs = concat (take i bs) @ bs ! i @ concat ?ds"
    by (subst bs) simp
  also have "concat ?ds =
      concat (take (j - Suc i) ?ds) @ bs ! j @ concat (drop (Suc (j - Suc i)) ?ds)"
    by (subst ds) simp
  finally show ?thesis by blast
qed

lemma source_block_heading: "\<exists>rest. source_block k r = source_heading k r @ rest"
  by (simp add: source_block_def Let_def)

lemma no_context_has_phrase: "str_includes NO_CONTEXT_BLOCK DEFLECTION_PHRASE"
proof -
  have "\<exists>ps ss. NO_CONTEXT_BLOCK = ps @ DEFLECTION_PHRASE @ ss"
    unfolding NO_CONTEXT_BLOCK_def DEFLECTION_PHRASE_def
    by (rule exI [where x = \<open>''# KNOWLEDGE BASE CONTEXT\<newline>\<newline>No relevant information found in the knowledge base for this query.\<newline>\<newline>**IMPORTANT:** Only provide information you are certain about. If you cannot answer based on your core knowledge, say: "''\<close>],
        rule exI [where x = \<open>''"''\<close>]) simp
  then show ?thesis by (simp add: str_includes_def sublist_def)
qed

lemma rules_have_phrase: "\<exists>ps ss. CONTEXT_RULES = ps @ DEFLECTION_PHRASE @ ss"
  unfolding CONTEXT_RULES_def DEFLECTION_PHRASE_def
  by (rule exI [where x = \<open>''**IMPORTANT RULES:**\<newline>1. Only provide information from the above documents\<newline>2. If a question cannot be answered from this context, say: "''\<close>],
      rule exI [where x = \<open>''"\<newline>3. Always cite the source when providing information (e.g., "According to [filename]...")\<newline>4. Do not make assumptions beyond what is explicitly stated\<newline>''\<close>]) simp

lemma context_has_phrase: "str_includes (buildOhmnicContext rso) DEFLECTION_PHRASE"
proof (cases "\<exists>rs. rso = Some rs \<and> rs \<noteq> []")
  case True
  then obtain rs where rs: "rso = Some rs" "rs \<noteq> []" by blast
  obtain ps ss where "CONTEXT_RULES = ps @ DEFLECTION_PHRASE @ ss"
    using rules_have_phrase by blast
  then have "buildOhmnicContext rso =
      (forEach_source CONTEXT_HEADER 0 rs @ ps) @ DEFLECTION_PHRASE @ ss"
    using rs by (simp add: buildOhmnicContext_def)
  then show ?thesis unfolding str_includes_def sublist_def by blast
next
  case False
  then have "buildOhmnicContext rso = NO_CONTEXT_BLOCK"
    by (cases rso) (auto simp: buildOhmnicContext_def)
  then show ?thesis using no_context_has_phrase by simp
qed

text \<open>
  C8. For an empty result list \<open>buildOhmnicContext\<close> returns the fixed block, which contains
  the deflection phrase. For a non-empty list it returns the header, one source block per
  result in the order of the list, and the closing rules; so for positions \<open>i < j\<close> the
  heading with the file name of result \<open>i\<close> stands before the heading with the file name
  of result \<open>j\<close>.
\<close>

theorem buildOhmnicContext_blocks_in_order:
  "buildOhmnicContext (Some []) = NO_CONTEXT_BLOCK \<and>
   str_includes NO_CONTEXT_BLOCK DEFLECTION_PHRASE \<and>
   (rs \<noteq> [] \<longrightarrow>
      buildOhmnicContext (Some rs) =
        CONTEXT_HEADER @ concat (map2 source_block [0..<length rs] rs) @ CONTEXT_RULES) \<and>
   (i < j \<and> j < length rs \<longrightarrow>
      (\<exists>a b c. buildOhmnicContext (Some rs) =
         a @ (''## Source '' @ show_nat (i + 1) @ '': '' @
              or_else (filename (source_or_empty (rs ! i))) ''Unknown'' @ ''\<newline>'') @
         b @ (''## Source '' @ show_nat (j + 1) @ '': '' @
              or_else (filename (source_or_empty (rs ! j))) ''Unknown'' @ ''\<newline>'') @ c))"
proof (intro conjI impI)
  show "buildOhmnicContext (Some []) = NO_CONTEXT_BLOCK"
    by (simp add: buildOhmnicContext_def)
  show "str_includes NO_CONTEXT_BLOCK DEFLECTION_PHRASE"
    by (rule no_context_has_phrase)
  show eq: "buildOhmnicContext (Some rs) =
        CONTEXT_HEADER @ concat (map2 source_block [0..<length rs] rs) @ CONTEXT_RULES"
    if "rs \<noteq> []"
    using that forEach_source_concat [of CONTEXT_HEADER 0 rs]
    by (simp add: buildOhmnicContext_def)
  show "\<exists>a b c. buildOhmnicContext (Some rs) =
         a @ (''## Source '' @ show_nat (i + 1) @ '': '' @
              or_else (filename (source_or_empty (rs ! i))) ''Unknown'' @ ''\<newline>'') @
         b @ (''## Source '' @ show_nat (j + 1) @ '': '' @
              or_else (filename (source_or_empty (rs ! j))) ''Unknown'' @ ''\<newline>'') @ c"
    if ij: "i < j \<and> j < length rs"
  proof -
    let ?bs = "map2 source_block [0..<length rs] rs"
    have ne: "rs \<noteq> []" using ij by auto
    have len: "length ?bs = length rs" by simp
    have bi: "?bs ! i = source_block i (rs ! i)" using ij by simp
    have bj: "?bs ! j = source_block j (rs ! j)" using ij by simp
    obtain a b c where abc: "concat ?bs = a @ ?bs ! i @ b @ ?bs ! j @ c"
      using concat_two_positions [of i j ?bs] ij len by auto
    obtain ri where ri: "source_block i (rs ! i) = source_heading i (rs ! i) @ ri"
      using source_block_heading by blast
    obtain rj where rj: "source_block j (rs ! j) = source_heading j (rs ! j) @ rj"
      using source_block_heading by blast
    have "buildOhmnicContext (Some rs) =
            (CONTEXT_HEADER @ a) @ source_heading i (rs ! i) @ (ri @ b) @
            source_heading j (rs ! j) @ (rj @ c @ CONTEXT_RULES)"
      using eq [OF ne] abc bi bj ri rj by simp
    then show ?thesis unfolding source_heading_def by blast
  qed
qed

theorem buildOhmnicContext_blocks_in_order_witness:
  "[example_result_1, example_result_2] \<noteq> [] \<and> (0::nat) < 1 \<and>
   1 < length [example_result_1, example_result_2] \<and>
   (\<exists>a b c. buildOhmnicContext (Some [example_result_1, example_result_2]) =
      a @ ''## Source 1: policies.pdf\<newline>'' @ b @ ''## Source 2: faq.md\<newline>'' @ c)"
proof -
  let ?rs = "[example_result_1, example_result_2]"
  have n: "show_nat (0 + 1) = ''1''" "show_nat (1 + 1) = ''2''"
    by (simp_all add: show_nat.simps digit_char_def)
  have f: "or_else (filename (source_or_empty (?rs ! 0))) ''Unknown'' = ''policies.pdf''"
    by (simp add: or_else_def source_or_empty_def example_result_1_def)
  have g: "or_else (filename (source_or_empty (?rs ! 1))) ''Unknown'' = ''faq.md''"
    by (simp add: or_else_def source_or_empty_def example_result_2_def)
  have pre: "(0::nat) < 1 \<and> 1 < length ?rs" by simp
  have "\<exists>a b c. buildOhmnicContext (Some ?rs) =
         a @ (''## Source '' @ show_nat (0 + 1) @ '': '' @
              or_else (filename (source_or_empty (?rs ! 0))) ''Unknown'' @ ''\<newline>'') @
         b @ (''## Source '' @ show_nat (1 + 1) @ '': '' @
              or_else (filename (source_or_empty (?rs ! 1))) ''Unknown'' @ ''\<newline>'') @ c"
    using buildOhmnicContext_blocks_in_order [of ?rs 0 1] pre by blast
  then have "\<exists>a b c. buildOhmnicContext (Some ?rs) =
         a @ ''## Source 1: policies.pdf\<newline>'' @ b @ ''## Source 2: faq.md\<newline>'' @ c"
    unfolding n f g by simp
  then show ?thesis by simp
qed


subsection \<open>Embedding service: retry policy\<close>

lemma attempts_trace_0: "attempts_trace req i 0 = [EmbeddingsCreate req]"
  by (simp add: attempts_trace_def)

lemma attempts_trace_Suc:
  "attempts_trace req i (Suc k) =
     [EmbeddingsCreate req, SetTimeout (2 ^ i * 1000)] @ attempts_trace req (Suc i) k"
proof -
  have "[0..<Suc k] = 0 # map Suc [0..<k]"
    by (simp add: upt_conv_Cons map_Suc_upt del: upt_Suc)
  then show ?thesis
    by (simp add: attempts_trace_def comp_def del: upt_Suc)
qed


lemma retry_loop_closed:
  assumes "i < retries"
  shows "\<exists>k. i + k < retries \<and>
           (\<forall>j<k. \<not> settles (embeddings_create ev (ncalls w + j) (create_request inp))) \<and>
           (settles (embeddings_create ev (ncalls w + k) (create_request inp)) \<or> i + k = retries - 1) \<and>
           retry_loop (openai_embeddings_create ev inp) retries i w =
             (returned (embeddings_create ev (ncalls w + k) (create_request inp)),
              w @ attempts_trace (create_request inp) i k)"
  using assms
proof (induction "retries - i" arbitrary: i w)
  case 0
  then show ?case by simp
next
  case (Suc n)
  let ?req = "create_request inp"
  let ?r = "embeddings_create ev (ncalls w) ?req"
  let ?fn = "openai_embeddings_create ev inp"
  have fn: "?fn w = (?r, w @ [EmbeddingsCreate ?req])"
    by (simp add: openai_embeddings_create_def)
  show ?case
  proof (cases "settles ?r \<or> i = retries - 1")
    case True
    have "retry_loop ?fn retries i w = (returned ?r, w @ attempts_trace ?req i 0)"
      using True Suc.prems
      by (subst retry_loop.simps)
         (auto simp: fn settles_def returned_def attempts_trace_0 split: sum.splits)
    then show ?thesis using True Suc.prems
      by (intro exI [where x = 0]) simp
  next
    case False
    then obtain e where e: "?r = Inl e" "isRetryableError e" "i \<noteq> retries - 1"
      by (auto simp: settles_def split: sum.splits)
    let ?w2 = "w @ [EmbeddingsCreate ?req] @ [SetTimeout (2 ^ i * 1000)]"
    have step: "retry_loop ?fn retries i w = retry_loop ?fn retries (Suc i) ?w2"
      using e Suc.prems by (subst retry_loop.simps) (simp add: fn)
    have lt: "Suc i < retries" using e Suc.prems by simp
    have n: "n = retries - Suc i" using Suc.hyps(2) by simp
    have nc: "ncalls ?w2 = Suc (ncalls w)" by simp
    obtain k where k: "Suc i + k < retries"
        "\<forall>j<k. \<not> settles (embeddings_create ev (ncalls ?w2 + j) ?req)"
        "settles (embeddings_create ev (ncalls ?w2 + k) ?req) \<or> Suc i + k = retries - 1"
        "retry_loop ?fn retries (Suc i) ?w2 =
           (returned (embeddings_create ev (ncalls ?w2 + k) ?req),
            ?w2 @ attempts_trace ?req (Suc i) k)"
      using Suc.hyps(1) [OF n lt, of ?w2] by blast
    have a: "i + Suc k < retries" using k(1) by simp
    have b: "\<forall>j<Suc k. \<not> settles (embeddings_create ev (ncalls w + j) ?req)"
    proof (intro allI impI)
      fix j assume "j < Suc k"
      show "\<not> settles (embeddings_create ev (ncalls w + j) ?req)"
      proof (cases j)
        case 0
        then show ?thesis using False by simp
      next
        case (Suc j')
        then show ?thesis using k(2) \<open>j < Suc k\<close> nc by simp
      qed
    qed
    have c: "settles (embeddings_create ev (ncalls w + Suc k) ?req) \<or> i + Suc k = retries - 1"
      using k(3) nc by simp
    have d: "retry_loop ?fn retries i w =
               (returned (embeddings_create ev (ncalls w + Suc k) ?req),
                w @ attempts_trace ?req i (Suc k))"
      using step k(4) nc by (simp add: attempts_trace_Suc)
    show ?thesis using a b c d by blast
  qed
qed

lemma lower_consts:
  "toLowerCase ''timeout'' = ''timeout''" "toLowerCase ''network'' = ''network''"
  "toLowerCase ''ECONNRESET'' = ''econnreset''" "toLowerCase ''ETIMEDOUT'' = ''etimedout''"
  by code_simp+

lemma isRetryableError_iff:
  "isRetryableError e \<longleftrightarrow>
     (\<exists>s. status e = Some s \<and> (s = 429 \<or> s = 500 \<or> s = 502 \<or> s = 503 \<or> s = 504)) \<or>
     (\<exists>m. message e = Some m \<and>
        (sublist ''timeout'' (toLowerCase m) \<or> sublist ''network'' (toLowerCase m) \<or>
         sublist ''econnreset'' (toLowerCase m) \<or> sublist ''etimedout'' (toLowerCase m)))"
proof -
  have empty: "\<not> sublist t (toLowerCase [])" if "t \<noteq> []" for t :: string
    using that by (simp add: toLowerCase_def)
  show ?thesis
    by (cases "status e"; cases "message e")
       (auto simp: isRetryableError_def retryableStatuses_def retryableMessages_def
          str_includes_def lower_consts empty)
qed

lemma flaky_settles:
  "\<not> settles (flaky_upstream 0 r)" "\<not> settles (flaky_upstream 1 r)" "settles (flaky_upstream 2 r)"
  by (simp_all add: flaky_upstream_def settles_def) code_simp+

text \<open>
  C5. An upstream call wrapped by \<open>retryWithBackoff\<close> makes \<open>k + 1\<close> attempts with \<open>k < 3\<close>:
  the first \<open>k\<close> answers are retryable errors, and attempt \<open>k + 1\<close> either succeeded,
  failed with an error that is not retryable, or was the third attempt; its answer is
  returned. The trace is attempt, wait of 1000 ms, attempt, wait of 2000 ms, attempt, cut
  after attempt \<open>k + 1\<close>, so no wait follows the last attempt. An error is retryable exactly
  when its status is 429, 500, 502, 503 or 504 or its message contains, in any letter
  case, timeout, network, econnreset or etimedout.
\<close>

theorem retryWithBackoff_policy:
  "(\<exists>k<3. (\<forall>j<k. \<not> settles (embeddings_create ev (ncalls w + j) (create_request inp))) \<and>
           (settles (embeddings_create ev (ncalls w + k) (create_request inp)) \<or> k = 2) \<and>
           retryWithBackoff (openai_embeddings_create ev inp) maxRetries w =
             (returned (embeddings_create ev (ncalls w + k) (create_request inp)),
              w @ attempts_trace (create_request inp) 0 k)) \<and>
   attempts_trace req 0 0 = [EmbeddingsCreate req] \<and>
   attempts_trace req 0 1 = [EmbeddingsCreate req, SetTimeout 1000, EmbeddingsCreate req] \<and>
   attempts_trace req 0 2 =
     [EmbeddingsCreate req, SetTimeout 1000, EmbeddingsCreate req, SetTimeout 2000,
      EmbeddingsCreate req] \<and>
   (settles (Inl e :: js_error + api_response) \<longleftrightarrow> \<not> isRetryableError e) \<and>
   settles (Inr x :: js_error + api_response) \<and>
   (isRetryableError e \<longleftrightarrow>
     (\<exists>s. status e = Some s \<and> (s = 429 \<or> s = 500 \<or> s = 502 \<or> s = 503 \<or> s = 504)) \<or>
     (\<exists>m. message e = Some m \<and>
        (sublist ''timeout'' (toLowerCase m) \<or> sublist ''network'' (toLowerCase m) \<or>
         sublist ''econnreset'' (toLowerCase m) \<or> sublist ''etimedout'' (toLowerCase m))))"
proof -
  have "\<exists>k. 0 + k < maxRetries \<and>
           (\<forall>j<k. \<not> settles (embeddings_create ev (ncalls w + j) (create_request inp))) \<and>
           (settles (embeddings_create ev (ncalls w + k) (create_request inp)) \<or>
            0 + k = maxRetries - 1) \<and>
           retry_loop (openai_embeddings_create ev inp) maxRetries 0 w =
             (returned (embeddings_create ev (ncalls w + k) (create_request inp)),
              w @ attempts_trace (create_request inp) 0 k)"
    by (rule retry_loop_closed) (simp add: maxRetries_def)
  then have first: "\<exists>k<3. (\<forall>j<k. \<not> settles (embeddings_create ev (ncalls w + j) (create_request inp))) \<and>
           (settles (embeddings_create ev (ncalls w + k) (create_request inp)) \<or> k = 2) \<and>
           retryWithBackoff (openai_embeddings_create ev inp) maxRetries w =
             (returned (embeddings_create ev (ncalls w + k) (create_request inp)),
              w @ attempts_trace (create_request inp) 0 k)"
    by (simp add: maxRetries_def retryWithBackoff_def)
  have t0: "attempts_trace req 0 0 = [EmbeddingsCreate req]"
    by (simp add: attempts_trace_def)
  have t1: "attempts_trace req 0 1 = [EmbeddingsCreate req, SetTimeout 1000, EmbeddingsCreate req]"
    by (simp add: attempts_trace_def)
  have t2: "attempts_trace req 0 2 =
     [EmbeddingsCreate req, SetTimeout 1000, EmbeddingsCreate req, SetTimeout 2000,
      EmbeddingsCreate req]"
    by (simp add: attempts_trace_def numeral_2_eq_2)
  have s1: "settles (Inl e :: js_error + api_response) \<longleftrightarrow> \<not> isRetryableError e"
    by (simp add: settles_def)
  have s2: "settles (Inr x :: js_error + api_response)"
    by (simp add: settles_def)
  show ?thesis using first t0 t1 t2 s1 s2 isRetryableError_iff [of e] by blast
qed

theorem retryWithBackoff_policy_witness:
  "retryWithBackoff
     (openai_embeddings_create
        \<lparr>embeddings_create = flaky_upstream, chunk_rows = [], vector_distance = (\<lambda>a b. 0),
         select_error = None, insert_error = None, date_now = (\<lambda>w. 0)\<rparr> (Single ''hello''))
     maxRetries [] =
   (Inr (Some example_response),
    [EmbeddingsCreate (create_request (Single ''hello'')), SetTimeout 1000,
     EmbeddingsCreate (create_request (Single ''hello'')), SetTimeout 2000,
     EmbeddingsCreate (create_request (Single ''hello''))])"
proof -
  let ?ev = "\<lparr>embeddings_create = flaky_upstream, chunk_rows = [], vector_distance = (\<lambda>a b. 0),
         select_error = None, insert_error = None, date_now = (\<lambda>w. 0)\<rparr>"
  let ?req = "create_request (Single ''hello'')"
  obtain k where k: "k < 3"
      "\<forall>j<k. \<not> settles (embeddings_create ?ev (ncalls [] + j) ?req)"
      "settles (embeddings_create ?ev (ncalls [] + k) ?req) \<or> k = 2"
      "retryWithBackoff (openai_embeddings_create ?ev (Single ''hello'')) maxRetries [] =
         (returned (embeddings_create ?ev (ncalls [] + k) ?req), [] @ attempts_trace ?req 0 k)"
    using retryWithBackoff_policy [of ?ev "[]" "Single ''hello''"] by blast
  have t2: "attempts_trace ?req 0 2 =
     [EmbeddingsCreate ?req, SetTimeout 1000, EmbeddingsCreate ?req, SetTimeout 2000,
      EmbeddingsCreate ?req]"
    using retryWithBackoff_policy [of ?ev "[]" "Single ''hello''" ?req] by blast
  have "k \<noteq> 0" using k(3) flaky_settles(1) [of ?req] by (cases "k = 0") auto
  moreover have "k \<noteq> 1" using k(3) flaky_settles(2) [of ?req] by (cases "k = 1") auto
  ultimately have "k = 2" using k(1) by arith
  then show ?thesis using k(4) t2
    by (simp add: returned_def flaky_upstream_def)
qed

subsection \<open>Embedding service: single text\<close>

text \<open>
  C3. \<open>generateEmbedding\<close> returns a vector only if its length is 3072. Any failure is the
  invalid input error or carries the prefix of a failed generation; the invalid input
  error is raised, with no upstream call, exactly for an argument that is not a non-empty
  text; an error left by the retries is wrapped with its message; and a first vector of
  another length is reported as invalid dimensions with the expected and the actual
  length.
\<close>

theorem generateEmbedding_dimension:
  "(\<forall>v. fst (generateEmbedding ev txt w) = Inr v \<longrightarrow> length v = 3072) \<and>
   (\<forall>e. fst (generateEmbedding ev txt w) = Inl e \<longrightarrow>
      e = Error ''Invalid text input for embedding generation'' \<or>
      (\<exists>m. e = Error (''Failed to generate embedding: '' @ m))) \<and>
   ((\<forall>t. txt = Str t \<longrightarrow> t = []) \<longleftrightarrow>
      generateEmbedding ev txt w = (Inl (Error ''Invalid text input for embedding generation''), w)) \<and>
   (\<forall>t e w'. txt = Str t \<and> t \<noteq> [] \<and>
      retryWithBackoff (openai_embeddings_create ev (Single t)) maxRetries w = (Inl e, w') \<longrightarrow>
      fst (generateEmbedding ev txt w) =
        Inl (Error (''Failed to generate embedding: '' @ message_text e))) \<and>
   (\<forall>t response item rest w'. txt = Str t \<and> t \<noteq> [] \<and>
      retryWithBackoff (openai_embeddings_create ev (Single t)) maxRetries w =
        (Inr (Some response), w') \<and>
      data response = item # rest \<and> length (embedding item) \<noteq> 3072 \<longrightarrow>
      fst (generateEmbedding ev txt w) =
        Inl (Error (''Failed to generate embedding: Invalid embedding dimensions: expected 3072, got '' @
                    show_nat (length (embedding item)))))"
proof (intro conjI)
  show "\<forall>v. fst (generateEmbedding ev txt w) = Inr v \<longrightarrow> length v = 3072"
    by (auto simp: generateEmbedding_def embedding_failed_def dimensions_def
        split: js_value.splits prod.splits sum.splits option.splits list.splits if_splits)
  show "\<forall>e. fst (generateEmbedding ev txt w) = Inl e \<longrightarrow>
      e = Error ''Invalid text input for embedding generation'' \<or>
      (\<exists>m. e = Error (''Failed to generate embedding: '' @ m))"
    by (auto simp: generateEmbedding_def embedding_failed_def
        split: js_value.splits prod.splits sum.splits option.splits list.splits if_splits)
  show "(\<forall>t. txt = Str t \<longrightarrow> t = []) \<longleftrightarrow>
      generateEmbedding ev txt w = (Inl (Error ''Invalid text input for embedding generation''), w)"
    by (auto simp: generateEmbedding_def embedding_failed_def Error_def
        split: js_value.splits prod.splits sum.splits option.splits list.splits if_splits)
  show "\<forall>t e w'. txt = Str t \<and> t \<noteq> [] \<and>
      retryWithBackoff (openai_embeddings_create ev (Single t)) maxRetries w = (Inl e, w') \<longrightarrow>
      fst (generateEmbedding ev txt w) =
        Inl (Error (''Failed to generate embedding: '' @ message_text e))"
    by (auto simp: generateEmbedding_def embedding_failed_def)
  have n: "show_nat 3072 = ''3072''" by code_simp
  show "\<forall>t response item rest w'. txt = Str t \<and> t \<noteq> [] \<and>
      retryWithBackoff (openai_embeddings_create ev (Single t)) maxRetries w =
        (Inr (Some response), w') \<and>
      data response = item # rest \<and> length (embedding item) \<noteq> 3072 \<longrightarrow>
      fst (generateEmbedding ev txt w) =
        Inl (Error (''Failed to generate embedding: Invalid embedding dimensions: expected 3072, got '' @
                    show_nat (length (embedding item))))"
    by (auto simp: generateEmbedding_def embedding_failed_def dimensions_def n message_text_def Error_def)
qed

lemma length_unit_vector: "length unit_vector = 3072"
  by (simp add: unit_vector_def)

lemma retryable_examples:
  "isRetryableError \<lparr>status = Some 429, message = Some ''Rate limit exceeded''\<rparr>"
  "isRetryableError \<lparr>status = None, message = Some ''Connection timeout''\<rparr>"
  by code_simp+


lemma flaky_retry:
  "retryWithBackoff (openai_embeddings_create flaky_env inp) maxRetries [] =
     (Inr (Some example_response),
      [EmbeddingsCreate (create_request inp), SetTimeout 1000,
       EmbeddingsCreate (create_request inp), SetTimeout 2000,
       EmbeddingsCreate (create_request inp)])"
  apply (simp add: retryWithBackoff_def maxRetries_def)
  apply (subst retry_loop.simps)
  apply (simp add: openai_embeddings_create_def flaky_env_def example_env_def flaky_upstream_def retryable_examples)
  apply (subst retry_loop.simps)
  apply (simp add: openai_embeddings_create_def flaky_env_def example_env_def flaky_upstream_def retryable_examples)
  apply (subst retry_loop.simps)
  apply (simp add: openai_embeddings_create_def flaky_env_def example_env_def flaky_upstream_def retryable_examples)
  done

lemma flaky_embedding:
  "fst (generateEmbedding flaky_env (Str ''return policy'') []) = Inr unit_vector"
  by (simp add: generateEmbedding_def flaky_retry example_response_def dimensions_def
      length_unit_vector)

lemma short_embedding:
  "fst (generateEmbedding short_env (Str ''return policy'') []) =
     Inl (Error ''Failed to generate embedding: Invalid embedding dimensions: expected 3072, got 3'')"
  by code_simp

theorem generateEmbedding_dimension_witness:
  "fst (generateEmbedding flaky_env (Str ''return policy'') []) = Inr unit_vector \<and>
   length unit_vector = 3072 \<and>
   fst (generateEmbedding short_env (Str ''return policy'') []) =
     Inl (Error ''Failed to generate embedding: Invalid embedding dimensions: expected 3072, got 3'') \<and>
   generateEmbedding flaky_env (Str '''') [] =
     (Inl (Error ''Invalid text input for embedding generation''), [])"
proof -
  note thm1 = generateEmbedding_dimension [of flaky_env "Str ''return policy''" "[]"]
  note thm2 = generateEmbedding_dimension [of flaky_env "Str ''''" "[]"]
  have "\<forall>v. fst (generateEmbedding flaky_env (Str ''return policy'') []) = Inr v \<longrightarrow>
          length v = 3072"
    using thm1 by (rule conjunct1)
  then have a: "length unit_vector = 3072"
    using flaky_embedding by (elim allE [where x = unit_vector]) simp
  have "(\<forall>t. Str '''' = Str t \<longrightarrow> t = []) \<longleftrightarrow>
      generateEmbedding flaky_env (Str '''') [] =
        (Inl (Error ''Invalid text input for embedding generation''), [])"
    using thm2 by (elim conjE)
  then have b: "generateEmbedding flaky_env (Str '''') [] =
     (Inl (Error ''Invalid text input for embedding generation''), [])"
    by simp
  show ?thesis using a b flaky_embedding short_embedding by simp
qed


subsection \<open>Embedding service: batches\<close>

lemma consecutive_batches_Nil [simp]: "consecutive_batches n [] = []"
  by (subst consecutive_batches.simps) simp

lemma consecutive_batches_step:
  "0 < n \<Longrightarrow> xs \<noteq> [] \<Longrightarrow>
   consecutive_batches n xs = take n xs # consecutive_batches n (drop n xs)"
  by (subst consecutive_batches.simps) simp

lemma createBatches_loop_eq:
  assumes "0 < b"
  shows "createBatches_loop array b i acc = Some (acc @ consecutive_batches b (drop i array))"
proof (induction "length array - i" arbitrary: i acc rule: less_induct)
  case less
  show ?case
  proof (cases "i < length array")
    case True
    have "createBatches_loop array b i acc =
            createBatches_loop array b (i + b) (acc @ [slice array i (i + b)])"
      using True by (subst createBatches_loop.simps) simp
    also have "\<dots> = Some ((acc @ [slice array i (i + b)]) @
                        consecutive_batches b (drop (i + b) array))"
      by (rule less.hyps) (use True assms in arith)
    also have "consecutive_batches b (drop i array) =
                 take b (drop i array) # consecutive_batches b (drop (i + b) array)"
      using True assms by (subst consecutive_batches_step) (simp_all add: add.commute)
    then have "(acc @ [slice array i (i + b)]) @ consecutive_batches b (drop (i + b) array) =
               acc @ consecutive_batches b (drop i array)"
      by (simp add: slice_def)
    finally show ?thesis .
  next
    case False
    then show ?thesis by (subst createBatches_loop.simps) simp
  qed
qed

lemma createBatches_eq: "0 < b \<Longrightarrow> createBatches array b = Some (consecutive_batches b array)"
  by (simp add: createBatches_def createBatches_loop_eq)

lemma concat_consecutive_batches: "0 < n \<Longrightarrow> concat (consecutive_batches n xs) = xs"
proof (induction "length xs" arbitrary: xs rule: less_induct)
  case less
  show ?case
  proof (cases "xs = []")
    case True
    then show ?thesis by simp
  next
    case False
    have "length (drop n xs) < length xs" using False less.prems by simp
    then have "concat (consecutive_batches n (drop n xs)) = drop n xs"
      using less.hyps less.prems by blast
    then show ?thesis using False less.prems by (simp add: consecutive_batches_step)
  qed
qed

lemma lengths_consecutive_batches:
  "0 < n \<Longrightarrow>
   map length (consecutive_batches n xs) =
     replicate (length xs div n) n @ (if length xs mod n = 0 then [] else [length xs mod n])"
proof (induction "length xs" arbitrary: xs rule: less_induct)
  case less
  show ?case
  proof (cases "xs = []")
    case True
    then show ?thesis by simp
  next
    case False
    note step = consecutive_batches_step [OF less.prems False]
    show ?thesis
    proof (cases "length xs < n")
      case True
      then have "drop n xs = []" by simp
      then show ?thesis using step True False by simp
    next
      case ge: False
      have lt: "length (drop n xs) < length xs" using False less.prems by simp
      have ih: "map length (consecutive_batches n (drop n xs)) =
                  replicate (length (drop n xs) div n) n @
                  (if length (drop n xs) mod n = 0 then [] else [length (drop n xs) mod n])"
        using less.hyps [OF lt less.prems] .
      have d: "length (drop n xs) = length xs - n" by simp
      have q: "length xs div n = Suc ((length xs - n) div n)"
        using ge less.prems by (simp add: le_div_geq)
      have m: "length xs mod n = (length xs - n) mod n"
        using ge by (simp add: le_mod_geq)
      have t: "length (take n xs) = n" using ge by simp
      show ?thesis unfolding step using ih t by (simp add: d q m)
    qed
  qed
qed

lemma upstream_requests_append [simp]:
  "upstream_requests (a @ b) = upstream_requests a @ upstream_requests b"
  by (simp add: upstream_requests_def List.map_filter_def)

lemma upstream_requests_attempts:
  "upstream_requests (attempts_trace req i k) = replicate (Suc k) req"
proof (induction k arbitrary: i)
  case 0
  show ?case by (simp add: attempts_trace_0 upstream_requests_def List.map_filter_def)
next
  case (Suc k)
  have "upstream_requests [EmbeddingsCreate req, SetTimeout (2 ^ i * 1000)] = [req]"
    by (simp add: upstream_requests_def List.map_filter_def)
  then show ?case using Suc.IH [of "Suc i"]
    by (simp only: attempts_trace_Suc upstream_requests_append) simp
qed

lemma retry_requests:
  assumes "retryWithBackoff (openai_embeddings_create ev inp) maxRetries w = (res, w')"
  shows "\<exists>m. 1 \<le> m \<and> m \<le> 3 \<and>
           upstream_requests w' = upstream_requests w @ replicate m (create_request inp) \<and>
           res \<noteq> Inr None \<and>
           (\<forall>x. res = Inr (Some x) \<longrightarrow>
              (\<exists>n. embeddings_create ev n (create_request inp) = Inr x))"
proof -
  obtain k where k: "0 + k < maxRetries"
      "retry_loop (openai_embeddings_create ev inp) maxRetries 0 w =
         (returned (embeddings_create ev (ncalls w + k) (create_request inp)),
          w @ attempts_trace (create_request inp) 0 k)"
    using retry_loop_closed [of 0 maxRetries ev w inp] by (auto simp: maxRetries_def)
  have res: "res = returned (embeddings_create ev (ncalls w + k) (create_request inp))"
    and w': "w' = w @ attempts_trace (create_request inp) 0 k"
    using assms k(2) by (simp_all add: retryWithBackoff_def)
  have "upstream_requests w' = upstream_requests w @ replicate (Suc k) (create_request inp)"
    by (simp only: w' upstream_requests_append upstream_requests_attempts)
  moreover have "res \<noteq> Inr None" by (simp add: res returned_def split: sum.splits)
  moreover have "\<forall>x. res = Inr (Some x) \<longrightarrow>
      (\<exists>n. embeddings_create ev n (create_request inp) = Inr x)"
    by (auto simp: res returned_def split: sum.splits)
  moreover have "1 \<le> Suc k \<and> Suc k \<le> 3" using k(1) by (simp add: maxRetries_def)
  ultimately show ?thesis by blast
qed

lemma batch_loop_success:
  "batch_loop ev bs i acc w = (Inr embs, w') \<Longrightarrow>
   \<exists>rs ms. length ms = length bs \<and> (\<forall>m\<in>set ms. 1 \<le> m \<and> m \<le> 3) \<and>
     list_all2 (\<lambda>b r. \<exists>n. embeddings_create ev n (create_request (Batch b)) = Inr r) bs rs \<and>
     embs = acc @ concat (map (\<lambda>r. map embedding (data r)) rs) \<and>
     upstream_requests w' =
       upstream_requests w @ concat (map2 (\<lambda>b m. replicate m (create_request (Batch b))) bs ms)"
proof (induction bs arbitrary: i acc w)
  case Nil
  then show ?case by simp
next
  case (Cons b bs)
  obtain res w1 where r: "retryWithBackoff (openai_embeddings_create ev (Batch b)) maxRetries w = (res, w1)"
    by (cases "retryWithBackoff (openai_embeddings_create ev (Batch b)) maxRetries w") auto
  obtain m where m: "1 \<le> m" "m \<le> 3"
      "upstream_requests w1 = upstream_requests w @ replicate m (create_request (Batch b))"
      "\<forall>x. res = Inr (Some x) \<longrightarrow> (\<exists>n. embeddings_create ev n (create_request (Batch b)) = Inr x)"
    using retry_requests [OF r] by blast
  obtain x where x: "res = Inr (Some x)"
    using Cons.prems r by (auto simp: batch_failed_def split: sum.splits option.splits)
  have rest: "batch_loop ev bs (i + 1) (acc @ map embedding (data x)) w1 = (Inr embs, w')"
    using Cons.prems r x by simp
  obtain rs ms where ih: "length ms = length bs" "\<forall>m\<in>set ms. 1 \<le> m \<and> m \<le> 3"
      "list_all2 (\<lambda>b r. \<exists>n. embeddings_create ev n (create_request (Batch b)) = Inr r) bs rs"
      "embs = (acc @ map embedding (data x)) @ concat (map (\<lambda>r. map embedding (data r)) rs)"
      "upstream_requests w' =
         upstream_requests w1 @ concat (map2 (\<lambda>b m. replicate m (create_request (Batch b))) bs ms)"
    using Cons.IH [OF rest] by blast
  have nx: "\<exists>n. embeddings_create ev n (create_request (Batch b)) = Inr x"
    using m(4) x by blast
  show ?case
    by (rule exI [where x = "x # rs"], rule exI [where x = "m # ms"])
       (use ih m(1,2,3) nx in simp)
qed

lemma upstream_requests_console [simp]: "upstream_requests [ConsoleError s] = []"
  by (simp add: upstream_requests_def List.map_filter_def)

lemma batch_loop_requests:
  "batch_loop ev bs i acc w = (res, w') \<Longrightarrow>
   \<exists>j ms. j \<le> length bs \<and> length ms = j \<and> (\<forall>m\<in>set ms. 1 \<le> m \<and> m \<le> 3) \<and>
     upstream_requests w' =
       upstream_requests w @
       concat (map2 (\<lambda>b m. replicate m (create_request (Batch b))) (take j bs) ms) \<and>
     ((\<exists>embs. res = Inr embs) \<longrightarrow> j = length bs)"
proof (induction bs arbitrary: i acc w)
  case Nil
  then show ?case by simp
next
  case (Cons b bs)
  obtain r w1 where r: "retryWithBackoff (openai_embeddings_create ev (Batch b)) maxRetries w = (r, w1)"
    by (cases "retryWithBackoff (openai_embeddings_create ev (Batch b)) maxRetries w") auto
  obtain m where m: "1 \<le> m" "m \<le> 3"
      "upstream_requests w1 = upstream_requests w @ replicate m (create_request (Batch b))"
    using retry_requests [OF r] by blast
  show ?case
  proof (cases "\<exists>x. r = Inr (Some x)")
    case True
    then obtain x where x: "r = Inr (Some x)" by blast
    have rest: "batch_loop ev bs (i + 1) (acc @ map embedding (data x)) w1 = (res, w')"
      using Cons.prems r x by simp
    obtain j ms where ih: "j \<le> length bs" "length ms = j" "\<forall>m\<in>set ms. 1 \<le> m \<and> m \<le> 3"
        "upstream_requests w' =
           upstream_requests w1 @
           concat (map2 (\<lambda>b m. replicate m (create_request (Batch b))) (take j bs) ms)"
        "(\<exists>embs. res = Inr embs) \<longrightarrow> j = length bs"
      using Cons.IH [OF rest] by blast
    show ?thesis
      by (rule exI [where x = "Suc j"], rule exI [where x = "m # ms"])
         (use ih m in simp)
  next
    case False
    then obtain err where f: "batch_loop ev (b # bs) i acc w = batch_failed i err w1"
      using r by (cases r) (auto split: option.splits)
    then have res: "res = fst (batch_failed i err w1)" and w': "w' = snd (batch_failed i err w1)"
      using Cons.prems by simp_all
    have "upstream_requests w' = upstream_requests w @ replicate m (create_request (Batch b))"
      using m(3) by (simp add: w' batch_failed_def)
    moreover have "\<not> (\<exists>embs. res = Inr embs)" by (simp add: res batch_failed_def)
    ultimately show ?thesis
      by (intro exI [where x = "Suc 0"] exI [where x = "[m]"]) (use m in simp)
  qed
qed

lemma retry_no_failure:
  assumes "\<forall>n r. \<exists>x. embeddings_create ev n r = Inr x"
  shows "\<exists>x. retryWithBackoff (openai_embeddings_create ev inp) maxRetries w =
           (Inr (Some x), w @ [EmbeddingsCreate (create_request inp)])"
proof -
  obtain x where x: "embeddings_create ev (ncalls w) (create_request inp) = Inr x"
    using assms by blast
  have "retryWithBackoff (openai_embeddings_create ev inp) maxRetries w =
           (Inr (Some x), w @ [EmbeddingsCreate (create_request inp)])"
    unfolding retryWithBackoff_def
    by (subst retry_loop.simps) (simp add: maxRetries_def openai_embeddings_create_def x)
  then show ?thesis by blast
qed

lemma batch_loop_no_failure:
  assumes "\<forall>n r. \<exists>x. embeddings_create ev n r = Inr x"
  shows "\<exists>embs. batch_loop ev bs i acc w =
           (Inr embs, w @ map (\<lambda>b. EmbeddingsCreate (create_request (Batch b))) bs)"
proof (induction bs arbitrary: i acc w)
  case Nil
  show ?case by simp
next
  case (Cons b bs)
  obtain x where x: "retryWithBackoff (openai_embeddings_create ev (Batch b)) maxRetries w =
           (Inr (Some x), w @ [EmbeddingsCreate (create_request (Batch b))])"
    using retry_no_failure [OF assms] by blast
  obtain embs where "batch_loop ev bs (i + 1) (acc @ map embedding (data x))
        (w @ [EmbeddingsCreate (create_request (Batch b))]) =
      (Inr embs, (w @ [EmbeddingsCreate (create_request (Batch b))]) @
                 map (\<lambda>b. EmbeddingsCreate (create_request (Batch b))) bs)"
    using Cons.IH by blast
  then show ?case using x by simp
qed

lemma batch_loop_append:
  "batch_loop ev (xs @ ys) i acc w =
     (case batch_loop ev xs i acc w of
        (Inl e, w') \<Rightarrow> (Inl e, w')
      | (Inr acc', w') \<Rightarrow> batch_loop ev ys (i + length xs) acc' w')"
proof (induction xs arbitrary: i acc w)
  case Nil
  show ?case by simp
next
  case (Cons x xs)
  show ?case
    by (simp add: Cons.IH batch_failed_def split: prod.splits sum.splits option.splits)
qed

lemma batch_loop_fail_at:
  assumes "batch_loop ev pre 0 [] w = (Inr acc, wj)"
    and "retryWithBackoff (openai_embeddings_create ev (Batch b)) maxRetries wj = (Inl e, w2)"
  shows "batch_loop ev (pre @ b # post) 0 [] w = batch_failed (length pre) e w2"
  by (simp add: batch_loop_append assms)

lemma batch_loop_first_failure:
  assumes "j < length bs"
    and "batch_loop ev (take j bs) 0 [] w = (Inr acc, wj)"
    and "fst (retryWithBackoff (openai_embeddings_create ev (Batch (bs ! j))) maxRetries wj) = Inl e"
  shows "fst (batch_loop ev bs 0 [] w) =
           Inl (Error (''Failed to generate embeddings for batch '' @ show_nat (j + 1) @ '': '' @
                       message_text e))"
proof -
  obtain w2 where r: "retryWithBackoff (openai_embeddings_create ev (Batch (bs ! j))) maxRetries wj = (Inl e, w2)"
    using assms(3)
    by (cases "retryWithBackoff (openai_embeddings_create ev (Batch (bs ! j))) maxRetries wj") auto
  have "batch_loop ev (take j bs @ bs ! j # drop (Suc j) bs) 0 [] w =
          batch_failed (length (take j bs)) e w2"
    using assms(2) r by (rule batch_loop_fail_at)
  moreover have "take j bs @ bs ! j # drop (Suc j) bs = bs"
    using id_take_nth_drop [OF assms(1)] by simp
  moreover have "length (take j bs) = j" using assms(1) by simp
  ultimately have "batch_loop ev bs 0 [] w = batch_failed j e w2" by simp
  then show ?thesis by (simp add: batch_failed_def)
qed

lemma batch_loop_failure_shape:
  "fst (batch_loop ev bs i acc w) = Inl e \<Longrightarrow>
   \<exists>j<length bs. \<exists>m. e = Error (''Failed to generate embeddings for batch '' @
                                show_nat (i + j + 1) @ '': '' @ m)"
proof (induction bs arbitrary: i acc w)
  case Nil
  then show ?case by simp
next
  case (Cons b bs)
  obtain res w1 where r: "retryWithBackoff (openai_embeddings_create ev (Batch b)) maxRetries w = (res, w1)"
    by (cases "retryWithBackoff (openai_embeddings_create ev (Batch b)) maxRetries w") auto
  show ?case
  proof (cases res)
    case (Inl err)
    then have "e = Error (''Failed to generate embeddings for batch '' @ show_nat (i + 0 + 1) @
                          '': '' @ message_text err)"
      using Cons.prems r by (simp add: batch_failed_def)
    then show ?thesis by (intro exI [where x = 0]) auto
  next
    case (Inr ro)
    show ?thesis
    proof (cases ro)
      case None
      then have "e = Error (''Failed to generate embeddings for batch '' @ show_nat (i + 0 + 1) @
                          '': '' @ message_text (Error ''Cannot read properties of undefined (reading 'data')''))"
        using Cons.prems r Inr by (simp add: batch_failed_def)
      then show ?thesis by (intro exI [where x = 0]) auto
    next
      case (Some x)
      then have "fst (batch_loop ev bs (i + 1) (acc @ map embedding (data x)) w1) = Inl e"
        using Cons.prems r Inr by simp
      then obtain j m where "j < length bs"
          "e = Error (''Failed to generate embeddings for batch '' @ show_nat (i + 1 + j + 1) @
                      '': '' @ m)"
        using Cons.IH by blast
      then show ?thesis by (intro exI [where x = "Suc j"]) auto
    qed
  qed
qed

lemma batches_150:
  "consecutive_batches 100 (replicate 150 x) = [replicate 100 x, replicate 50 x]"
  by (subst consecutive_batches_step, simp, simp,
      subst consecutive_batches_step, simp, simp, simp)

lemma batches_250:
  "consecutive_batches 100 (replicate 250 x) =
     [replicate 100 x, replicate 100 x, replicate 50 x]"
  by (subst consecutive_batches_step, simp, simp,
      subst consecutive_batches_step, simp, simp,
      subst consecutive_batches_step, simp, simp, simp)

lemma steady_answers: "\<forall>n r. \<exists>x. embeddings_create example_env n r = Inr x"
  by (simp add: example_env_def steady_upstream_def)

text \<open>
  C6. \<open>createBatches\<close> with the batch size of 100 returns the consecutive batches of the
  input: their concatenation is the input and their sizes are 100, except for a smaller
  last one; for 250 texts the sizes are 100, 100 and 50. \<open>generateBatchEmbeddings\<close> runs
  the batch loop over them. When it succeeds, the upstream was called for the batches in
  input order, each batch between one and three times (the attempts of its one wrapped
  call), and the result is the concatenation, in that order, of the embeddings which the
  upstream returned for each batch. With an upstream that answers every call there is
  exactly one upstream call per batch. Whatever the outcome, the requests sent upstream
  are those of the first \<open>j\<close> batches in input order, each sent one to three times, where
  \<open>j\<close> is the number of all batches unless a batch failed.
\<close>

theorem generateBatchEmbeddings_batches:
  "createBatches ts batchSize = Some (consecutive_batches 100 ts) \<and>
   concat (consecutive_batches 100 ts) = ts \<and>
   map length (consecutive_batches 100 ts) =
     replicate (length ts div 100) 100 @
     (if length ts mod 100 = 0 then [] else [length ts mod 100]) \<and>
   (length ts = 250 \<longrightarrow> map length (consecutive_batches 100 ts) = [100, 100, 50]) \<and>
   (ts \<noteq> [] \<longrightarrow>
      generateBatchEmbeddings ev (Some ts) w =
        Some (batch_loop ev (consecutive_batches 100 ts) 0 [] w)) \<and>
   (\<forall>embs w'. batch_loop ev (consecutive_batches 100 ts) 0 [] w = (Inr embs, w') \<longrightarrow>
      (\<exists>rs ms. length ms = length (consecutive_batches 100 ts) \<and>
         (\<forall>m\<in>set ms. 1 \<le> m \<and> m \<le> 3) \<and>
         list_all2 (\<lambda>b r. \<exists>n. embeddings_create ev n (create_request (Batch b)) = Inr r)
           (consecutive_batches 100 ts) rs \<and>
         embs = concat (map (\<lambda>r. map embedding (data r)) rs) \<and>
         upstream_requests w' =
           upstream_requests w @
           concat (map2 (\<lambda>b m. replicate m (create_request (Batch b)))
                     (consecutive_batches 100 ts) ms))) \<and>
   ((\<forall>n r. \<exists>x. embeddings_create ev n r = Inr x) \<longrightarrow>
      (\<exists>embs. batch_loop ev (consecutive_batches 100 ts) 0 [] w =
         (Inr embs,
          w @ map (\<lambda>b. EmbeddingsCreate (create_request (Batch b))) (consecutive_batches 100 ts)))) \<and>
   (\<forall>res w'. batch_loop ev (consecutive_batches 100 ts) 0 [] w = (res, w') \<longrightarrow>
      (\<exists>j ms. j \<le> length (consecutive_batches 100 ts) \<and> length ms = j \<and>
         (\<forall>m\<in>set ms. 1 \<le> m \<and> m \<le> 3) \<and>
         upstream_requests w' =
           upstream_requests w @
           concat (map2 (\<lambda>b m. replicate m (create_request (Batch b)))
                     (take j (consecutive_batches 100 ts)) ms) \<and>
         ((\<exists>embs. res = Inr embs) \<longrightarrow> j = length (consecutive_batches 100 ts))))"
proof (intro conjI impI allI)
  show c: "createBatches ts batchSize = Some (consecutive_batches 100 ts)"
    by (simp add: createBatches_eq batchSize_def)
  show "concat (consecutive_batches 100 ts) = ts"
    by (simp add: concat_consecutive_batches)
  show l: "map length (consecutive_batches 100 ts) =
     replicate (length ts div 100) 100 @
     (if length ts mod 100 = 0 then [] else [length ts mod 100])"
    by (simp add: lengths_consecutive_batches)
  show "map length (consecutive_batches 100 ts) = [100, 100, 50]" if "length ts = 250"
    unfolding l that by (simp add: numeral_2_eq_2)
  show "generateBatchEmbeddings ev (Some ts) w =
        Some (batch_loop ev (consecutive_batches 100 ts) 0 [] w)" if "ts \<noteq> []"
    using that c by (simp add: generateBatchEmbeddings_def)
  show "\<exists>rs ms. length ms = length (consecutive_batches 100 ts) \<and>
         (\<forall>m\<in>set ms. 1 \<le> m \<and> m \<le> 3) \<and>
         list_all2 (\<lambda>b r. \<exists>n. embeddings_create ev n (create_request (Batch b)) = Inr r)
           (consecutive_batches 100 ts) rs \<and>
         embs = concat (map (\<lambda>r. map embedding (data r)) rs) \<and>
         upstream_requests w' =
           upstream_requests w @
           concat (map2 (\<lambda>b m. replicate m (create_request (Batch b)))
                     (consecutive_batches 100 ts) ms)"
    if "batch_loop ev (consecutive_batches 100 ts) 0 [] w = (Inr embs, w')" for embs w'
    using batch_loop_success [OF that] by simp
  show "\<exists>embs. batch_loop ev (consecutive_batches 100 ts) 0 [] w =
         (Inr embs,
          w @ map (\<lambda>b. EmbeddingsCreate (create_request (Batch b))) (consecutive_batches 100 ts))"
    if "\<forall>n r. \<exists>x. embeddings_create ev n r = Inr x"
    using batch_loop_no_failure [OF that] .
  show "\<exists>j ms. j \<le> length (consecutive_batches 100 ts) \<and> length ms = j \<and>
         (\<forall>m\<in>set ms. 1 \<le> m \<and> m \<le> 3) \<and>
         upstream_requests w' =
           upstream_requests w @
           concat (map2 (\<lambda>b m. replicate m (create_request (Batch b)))
                     (take j (consecutive_batches 100 ts)) ms) \<and>
         ((\<exists>embs. res = Inr embs) \<longrightarrow> j = length (consecutive_batches 100 ts))"
    if "batch_loop ev (consecutive_batches 100 ts) 0 [] w = (res, w')" for res w'
    using batch_loop_requests [OF that] .
qed

theorem generateBatchEmbeddings_batches_witness:
  "length (replicate 250 ''x'') = 250 \<and>
   map length (consecutive_batches 100 (replicate 250 ''x'')) = [100, 100, 50] \<and>
   (\<exists>embs. generateBatchEmbeddings example_env (Some (replicate 250 ''x'')) [] =
      Some (Inr embs,
            [EmbeddingsCreate (create_request (Batch (replicate 100 ''x''))),
             EmbeddingsCreate (create_request (Batch (replicate 100 ''x''))),
             EmbeddingsCreate (create_request (Batch (replicate 50 ''x'')))]))"
proof -
  note inst = generateBatchEmbeddings_batches [of "replicate 250 ''x''" example_env "[]"]
  have len: "length (replicate 250 ''x'') = 250" by simp
  have ne: "replicate 250 ''x'' \<noteq> []" by simp
  have a: "map length (consecutive_batches 100 (replicate 250 ''x'')) = [100, 100, 50]"
    using inst len by (elim conjE) (rule mp)
  have b: "generateBatchEmbeddings example_env (Some (replicate 250 ''x'')) [] =
        Some (batch_loop example_env (consecutive_batches 100 (replicate 250 ''x'')) 0 [] [])"
    using inst ne by (elim conjE) (rule mp)
  have c: "\<exists>embs. batch_loop example_env (consecutive_batches 100 (replicate 250 ''x'')) 0 [] [] =
         (Inr embs,
          [] @ map (\<lambda>b. EmbeddingsCreate (create_request (Batch b)))
                 (consecutive_batches 100 (replicate 250 ''x'')))"
    using inst steady_answers by (elim conjE) (rule mp)
  show ?thesis using len a b c by (simp add: batches_250)
qed

lemma always_returns: "\<exists>r. generateBatchEmbeddings ev texts w = Some r"
  by (cases texts) (simp_all add: generateBatchEmbeddings_def createBatches_eq batchSize_def)

lemma bad_request_final: "\<not> isRetryableError \<lparr>status = Some 400, message = Some ''Bad request''\<rparr>"
  by code_simp

lemma rejecting_first:
  "retryWithBackoff (openai_embeddings_create rejecting_env inp) maxRetries [] =
     (Inr (Some example_response), [EmbeddingsCreate (create_request inp)])"
  unfolding retryWithBackoff_def
  by (subst retry_loop.simps)
     (simp add: maxRetries_def openai_embeddings_create_def rejecting_env_def example_env_def
        rejecting_upstream_def)

lemma rejecting_second:
  "retryWithBackoff (openai_embeddings_create rejecting_env inp) maxRetries [EmbeddingsCreate r] =
     (Inl \<lparr>status = Some 400, message = Some ''Bad request''\<rparr>,
      [EmbeddingsCreate r, EmbeddingsCreate (create_request inp)])"
  unfolding retryWithBackoff_def
  by (subst retry_loop.simps)
     (simp add: maxRetries_def openai_embeddings_create_def rejecting_env_def example_env_def
        rejecting_upstream_def bad_request_final)

text \<open>
  C4. \<open>generateBatchEmbeddings\<close> always returns. If the batches before batch \<open>j\<close> succeeded
  and the wrapped upstream call of batch \<open>j\<close> ends in an error, the whole call fails with
  an error whose message names batch \<open>j + 1\<close> (batches are counted from one in messages)
  and carries the message of that error; the result is the error alone, the embeddings
  collected from earlier batches are not part of it. Any failure for a non-empty input
  names one of the batches in this way.
\<close>

theorem generateBatchEmbeddings_failure:
  "(\<exists>r. generateBatchEmbeddings ev texts w = Some r) \<and>
   (ts \<noteq> [] \<and> j < length (consecutive_batches 100 ts) \<and>
    batch_loop ev (take j (consecutive_batches 100 ts)) 0 [] w = (Inr acc, wj) \<and>
    fst (retryWithBackoff (openai_embeddings_create ev (Batch (consecutive_batches 100 ts ! j)))
           maxRetries wj) = Inl e \<longrightarrow>
    (\<exists>w'. generateBatchEmbeddings ev (Some ts) w =
       Some (Inl (Error (''Failed to generate embeddings for batch '' @ show_nat (j + 1) @
                         '': '' @ message_text e)), w'))) \<and>
   (\<forall>err w'. generateBatchEmbeddings ev (Some ts) w = Some (Inl err, w') \<longrightarrow>
      err = Error ''Invalid texts array for batch embedding generation'' \<or>
      (\<exists>k<length (consecutive_batches 100 ts). \<exists>m.
         err = Error (''Failed to generate embeddings for batch '' @ show_nat (k + 1) @
                      '': '' @ m)))"
proof (intro conjI impI allI)
  show "\<exists>r. generateBatchEmbeddings ev texts w = Some r" by (rule always_returns)
  have g: "generateBatchEmbeddings ev (Some ts) w =
        Some (batch_loop ev (consecutive_batches 100 ts) 0 [] w)" if "ts \<noteq> []"
    using that by (simp add: generateBatchEmbeddings_def createBatches_eq batchSize_def)
  show "\<exists>w'. generateBatchEmbeddings ev (Some ts) w =
       Some (Inl (Error (''Failed to generate embeddings for batch '' @ show_nat (j + 1) @
                         '': '' @ message_text e)), w')"
    if h: "ts \<noteq> [] \<and> j < length (consecutive_batches 100 ts) \<and>
    batch_loop ev (take j (consecutive_batches 100 ts)) 0 [] w = (Inr acc, wj) \<and>
    fst (retryWithBackoff (openai_embeddings_create ev (Batch (consecutive_batches 100 ts ! j)))
           maxRetries wj) = Inl e"
  proof -
    have "fst (batch_loop ev (consecutive_batches 100 ts) 0 [] w) =
           Inl (Error (''Failed to generate embeddings for batch '' @ show_nat (j + 1) @ '': '' @
                       message_text e))"
      using h by (intro batch_loop_first_failure) auto
    then show ?thesis using g h
      by (cases "batch_loop ev (consecutive_batches 100 ts) 0 [] w") auto
  qed
  show "err = Error ''Invalid texts array for batch embedding generation'' \<or>
      (\<exists>k<length (consecutive_batches 100 ts). \<exists>m.
         err = Error (''Failed to generate embeddings for batch '' @ show_nat (k + 1) @
                      '': '' @ m))"
    if h: "generateBatchEmbeddings ev (Some ts) w = Some (Inl err, w')" for err w'
  proof (cases "ts = []")
    case True
    then show ?thesis using h by (simp add: generateBatchEmbeddings_def)
  next
    case False
    then have "batch_loop ev (consecutive_batches 100 ts) 0 [] w = (Inl err, w')"
      using g h by simp
    then have "fst (batch_loop ev (consecutive_batches 100 ts) 0 [] w) = Inl err"
      by simp
    then show ?thesis using batch_loop_failure_shape [of ev _ 0 "[]" w err] by simp
  qed
qed

theorem generateBatchEmbeddings_failure_witness:
  "\<exists>w'. generateBatchEmbeddings rejecting_env (Some (replicate 150 ''x'')) [] =
     Some (Inl (Error ''Failed to generate embeddings for batch 2: Bad request''), w')"
proof -
  let ?ts = "replicate 150 ''x''"
  let ?e = "\<lparr>status = Some 400, message = Some ''Bad request''\<rparr>"
  let ?w1 = "[EmbeddingsCreate (create_request (Batch (replicate 100 ''x'')))]"
  have h1: "?ts \<noteq> []" by simp
  have h2: "1 < length (consecutive_batches 100 ?ts)" by (simp add: batches_150)
  have h3: "batch_loop rejecting_env (take 1 (consecutive_batches 100 ?ts)) 0 [] [] =
              (Inr (map embedding (data example_response)), ?w1)"
    by (simp add: batches_150 rejecting_first)
  have h4: "fst (retryWithBackoff
                   (openai_embeddings_create rejecting_env (Batch (consecutive_batches 100 ?ts ! 1)))
                   maxRetries ?w1) = Inl ?e"
    by (simp add: batches_150 rejecting_second)
  have n: "show_nat (1 + 1) = ''2''" by (simp add: show_nat.simps digit_char_def)
  have m: "message_text ?e = ''Bad request''" by (simp add: message_text_def)
  have "\<exists>w'. generateBatchEmbeddings rejecting_env (Some ?ts) [] =
       Some (Inl (Error (''Failed to generate embeddings for batch '' @ show_nat (1 + 1) @
                         '': '' @ message_text ?e)), w')"
    using generateBatchEmbeddings_failure
      [of rejecting_env "Some ?ts" "[]" ?ts 1 "map embedding (data example_response)" ?w1 ?e]
      h1 h2 h3 h4
    by (elim conjE) (rule mp, assumption, intro conjI)
  then show ?thesis unfolding n m by simp
qed


subsection \<open>Vector search\<close>

lemma dot_zeros_right: "sum_list (map2 (*) xs (replicate n (0::rat))) = 0"
proof (induction n arbitrary: xs)
  case 0
  show ?case by simp
next
  case (Suc n)
  show ?case by (cases xs) (simp_all add: Suc.IH)
qed

lemma dot_slanted_unit: "dot_product slanted_vector unit_vector = 32 / 257"
  by (simp add: dot_product_def slanted_vector_def unit_vector_def dot_zeros_right)

lemma dot_unit_unit: "dot_product unit_vector unit_vector = 1"
  by (simp add: dot_product_def unit_vector_def dot_zeros_right sum_list_replicate)

lemma example_distances:
  "unit_cosine_distance slanted_vector unit_vector = 225 / 257"
  "unit_cosine_distance unit_vector unit_vector = 0"
  by (simp_all add: unit_cosine_distance_def dot_slanted_unit dot_unit_unit)

lemma steady_embedding:
  "generateEmbedding example_env (Str ''return policy'') [] =
     (Inr unit_vector, [EmbeddingsCreate (create_request (Single ''return policy''))])"
proof -
  have "retryWithBackoff (openai_embeddings_create example_env (Single ''return policy''))
          maxRetries [] =
        (Inr (Some example_response),
         [EmbeddingsCreate (create_request (Single ''return policy''))])"
    unfolding retryWithBackoff_def
    by (subst retry_loop.simps)
       (simp add: maxRetries_def openai_embeddings_create_def example_env_def
          steady_upstream_def)
  then show ?thesis
    by (simp add: generateEmbedding_def example_response_def dimensions_def length_unit_vector)
qed

lemma example_candidates:
  "List.map_filter (with_distance unit_cosine_distance unit_vector) example_rows =
     [(225 / 257, example_row ''c-7'' ''t1'' 7 (Some slanted_vector)),
      (225 / 257, example_row ''c-2'' ''t1'' 2 (Some slanted_vector)),
      (0, example_row ''c-9'' ''t2'' 0 (Some unit_vector))]"
  by (simp add: List.map_filter_simps with_distance_def example_rows_def example_distances
      example_row_def)

lemma roundings:
  "parseFloat_toFixed 4 (32 / 257) = 249 / 2000"
  by code_simp


lemma example_env_fields:
  "chunk_rows example_env = example_rows"
  "vector_distance example_env = unit_cosine_distance"
  "select_error example_env = None"
  "insert_error example_env = None"
  "date_now example_env w = 1000 + 40 * int (length w)"
  by (simp_all add: example_env_def)

lemma example_selection:
  "select_chunks unit_cosine_distance example_rows unit_vector (Some ''t1'') None
     (12451 / 100000) 5 =
   [(225 / 257, example_row ''c-7'' ''t1'' 7 (Some slanted_vector)),
    (225 / 257, example_row ''c-2'' ''t1'' 2 (Some slanted_vector))]"
proof -
  have t: "row_tenant_id (example_row c t i e) = t" for c t i e
    by (simp add: example_row_def)
  show ?thesis
    by (simp add: select_chunks_def example_candidates where_clause_def t)
qed


lemma example_row_result:
  "row_to_result (225 / 257, example_row cid ''t1'' idx (Some slanted_vector)) =
     example_result cid idx"
  by (simp add: row_to_result_def example_row_def example_result_def roundings)

lemma example_search:
  "search example_env (Str ''return policy'') (Some ''t1'') fine_threshold_options [] =
     (Inr \<lparr>results = [example_result ''c-7'' 7, example_result ''c-2'' 2],
           query_text = ''return policy'', count = 2, responseTimeMs = 80\<rparr>,
      [EmbeddingsCreate (create_request (Single ''return policy'')),
       SelectChunks unit_vector (Some ''t1'') None (12451 / 100000) 5,
       InsertQueryLog (Some ''t1'') ''return policy'' 2 80])"
  by (simp add: search_def steady_embedding vectorSimilaritySearch_def example_env_fields
      logQuery_def fine_threshold_options_def example_selection example_row_result text_of_def)


lemma toFixed_units_mono: "\<bar>x\<bar> \<le> \<bar>y\<bar> \<Longrightarrow> toFixed_units f x \<le> toFixed_units f y"
  unfolding toFixed_units_def
  by (intro nat_mono floor_mono add_right_mono mult_right_mono) simp_all

lemma parseFloat_toFixed_mono:
  assumes "x \<le> y"
  shows "parseFloat_toFixed f x \<le> parseFloat_toFixed f y"
proof -
  have pos: "(0::rat) \<le> of_nat n / 10 ^ f" for n :: nat by simp
  consider "y < 0" | "x < 0" "0 \<le> y" | "0 \<le> x" by linarith
  then show ?thesis
  proof cases
    case 1
    then have "toFixed_units f y \<le> toFixed_units f x"
      using assms by (intro toFixed_units_mono) simp
    then have "(of_nat (toFixed_units f y) :: rat) / 10 ^ f \<le> of_nat (toFixed_units f x) / 10 ^ f"
      by (simp add: divide_right_mono)
    then show ?thesis using 1 assms by (simp add: parseFloat_toFixed_def)
  next
    case 2
    have "- (of_nat (toFixed_units f x) / 10 ^ f) \<le> (0::rat)" using pos by simp
    also have "\<dots> \<le> of_nat (toFixed_units f y) / 10 ^ f" by (rule pos)
    finally show ?thesis using 2 by (simp add: parseFloat_toFixed_def)
  next
    case 3
    then have "toFixed_units f x \<le> toFixed_units f y"
      using assms by (intro toFixed_units_mono) simp
    then have "(of_nat (toFixed_units f x) :: rat) / 10 ^ f \<le> of_nat (toFixed_units f y) / 10 ^ f"
      by (simp add: divide_right_mono)
    then show ?thesis using 3 assms by (simp add: parseFloat_toFixed_def)
  qed
qed

lemma parseFloat_toFixed_exact:
  "parseFloat_toFixed f (of_nat n / 10 ^ f) = of_nat n / 10 ^ f"
proof -
  have nn: "\<not> ((of_nat n :: rat) / 10 ^ f < 0)" by (simp add: not_less)
  have "\<bar>(of_nat n :: rat) / 10 ^ f\<bar> * 10 ^ f = of_nat n" by simp
  moreover have "\<lfloor>(of_nat n :: rat) + 1 / 2\<rfloor> = int n"
    by (simp add: floor_unique)
  ultimately have "toFixed_units f (of_nat n / 10 ^ f) = n"
    unfolding toFixed_units_def by simp
  then show ?thesis using nn unfolding parseFloat_toFixed_def by simp
qed

lemma candidates_from_rows:
  "dr \<in> set (List.map_filter (with_distance dop q) rows) \<Longrightarrow>
   \<exists>e. snd dr \<in> set rows \<and> row_embedding (snd dr) = Some e \<and> fst dr = dop e q"
  by (auto simp: List.map_filter_def with_distance_def split: option.splits)

lemma select_chunks_member:
  assumes "dr \<in> set (select_chunks dop rows q tenantId docIds threshold k)"
  shows "\<exists>e. snd dr \<in> set rows \<and> row_embedding (snd dr) = Some e \<and> fst dr = dop e q \<and>
             tenantId = Some (row_tenant_id (snd dr)) \<and> threshold \<le> 1 - dop e q"
proof -
  have "dr \<in> set (filter (where_clause tenantId docIds threshold)
                      (List.map_filter (with_distance dop q) rows))"
    using assms set_take_subset unfolding select_chunks_def by fastforce
  then have c: "dr \<in> set (List.map_filter (with_distance dop q) rows)"
    and w: "where_clause tenantId docIds threshold dr" by simp_all
  obtain e where "snd dr \<in> set rows" "row_embedding (snd dr) = Some e" "fst dr = dop e q"
    using candidates_from_rows [OF c] by blast
  then show ?thesis using w by (auto simp: where_clause_def)
qed

lemma select_chunks_length: "length (select_chunks dop rows q tenantId docIds threshold k) \<le> k"
  by (simp add: select_chunks_def)

lemma select_chunks_sorted:
  "sorted_wrt (\<lambda>a b. fst a \<le> fst b) (select_chunks dop rows q tenantId docIds threshold k)"
proof -
  let ?xs = "sort_key fst (filter (where_clause tenantId docIds threshold)
                             (List.map_filter (with_distance dop q) rows))"
  have "sorted (map fst ?xs)" by (rule sorted_sort_key)
  then have "sorted_wrt (\<lambda>a b. fst a \<le> fst b) ?xs" by (simp add: sorted_map)
  then show ?thesis unfolding select_chunks_def by (rule sorted_wrt_take)
qed

lemma ranked_results:
  "ranked (map row_to_result (select_chunks dop rows q tenantId docIds threshold k))"
proof -
  have "sorted_wrt (\<lambda>a b. similarity (row_to_result a) \<ge> similarity (row_to_result b))
          (select_chunks dop rows q tenantId docIds threshold k)"
    using select_chunks_sorted
  proof (rule sorted_wrt_mono_rel [rotated])
    fix a b :: "js_number \<times> chunk_row"
    assume "fst a \<le> fst b"
    then have "1 - fst b \<le> 1 - fst a" by simp
    then show "similarity (row_to_result b) \<le> similarity (row_to_result a)"
      by (simp add: row_to_result_def Let_def parseFloat_toFixed_mono)
  qed
  then show ?thesis by (simp add: ranked_def sorted_wrt_map)
qed

lemma search_success:
  assumes "fst (search ev query tenantId options w) = Inr resp"
  shows "\<exists>q w1. generateEmbedding ev query w = (Inr q, w1) \<and> select_error ev = None \<and>
           results resp =
             map row_to_result
               (select_chunks (vector_distance ev) (chunk_rows ev) q tenantId (documentIds options)
                  (case similarityThreshold options of
                     None \<Rightarrow> default_similarityThreshold | Some t \<Rightarrow> t)
                  (case topK options of None \<Rightarrow> defaultTopK | Some n \<Rightarrow> n)) \<and>
           count resp = length (results resp) \<and> query_text resp = text_of query"
proof -
  obtain r1 w1 where g: "generateEmbedding ev query w = (r1, w1)"
    by (cases "generateEmbedding ev query w") auto
  show ?thesis
  proof (cases r1)
    case (Inl e)
    then show ?thesis using assms g by (simp add: search_def search_failed_def Let_def)
  next
    case (Inr q)
    show ?thesis
    proof (cases "select_error ev")
      case None
      then show ?thesis using assms g Inr
        by (auto simp: search_def vectorSimilaritySearch_def Let_def)
    next
      case (Some e)
      then show ?thesis using assms g Inr
        by (simp add: search_def vectorSimilaritySearch_def search_failed_def Let_def)
    qed
  qed
qed

lemma upstream_ignores_log:
  "openai_embeddings_create (ev\<lparr>insert_error := x\<rparr>) inp = openai_embeddings_create ev inp"
  by (rule ext) (simp add: openai_embeddings_create_def)

lemma generateEmbedding_ignores_log:
  "generateEmbedding (ev\<lparr>insert_error := x\<rparr>) txt w = generateEmbedding ev txt w"
  unfolding generateEmbedding_def upstream_ignores_log by (rule refl)

lemma vectorSimilaritySearch_ignores_log:
  "vectorSimilaritySearch (ev\<lparr>insert_error := x\<rparr>) q t k th d w =
     vectorSimilaritySearch ev q t k th d w"
  by (simp add: vectorSimilaritySearch_def Let_def split: option.splits)

lemma search_with_log_outcome:
  "search (ev\<lparr>insert_error := x\<rparr>) query tenantId options w =
     (case search (ev\<lparr>insert_error := None\<rparr>) query tenantId options w of
        (Inl err, w') \<Rightarrow> (Inl err, w')
      | (Inr resp, w') \<Rightarrow>
          (Inr resp,
           case x of None \<Rightarrow> w'
           | Some e \<Rightarrow> w' @ [ConsoleError ''[OHMNIC SEARCH] Failed to log query:'']))"
  by (simp add: search_def generateEmbedding_ignores_log vectorSimilaritySearch_ignores_log
      logQuery_def search_failed_def Let_def
      split: prod.splits sum.splits option.splits)

text \<open>
  C7. The value which \<open>search\<close> returns, a result or an error, is the same whether the
  INSERT into the query log fails or succeeds. \<open>logQuery\<close> returns nothing and raises
  nothing: after a failed INSERT it adds one \<open>console.error\<close> diagnostic, and that line is
  the only difference between the traces of a successful search with a failing and with
  a succeeding log write.
\<close>

theorem search_ignores_log_failure:
  "fst (search (ev\<lparr>insert_error := Some e\<rparr>) query tenantId options w) =
     fst (search (ev\<lparr>insert_error := None\<rparr>) query tenantId options w) \<and>
   logQuery (ev\<lparr>insert_error := None\<rparr>) qt tenantId n ms w =
     w @ [InsertQueryLog tenantId qt n ms] \<and>
   logQuery (ev\<lparr>insert_error := Some e\<rparr>) qt tenantId n ms w =
     w @ [InsertQueryLog tenantId qt n ms,
          ConsoleError ''[OHMNIC SEARCH] Failed to log query:''] \<and>
   (\<forall>resp. fst (search (ev\<lparr>insert_error := None\<rparr>) query tenantId options w) = Inr resp \<longrightarrow>
      snd (search (ev\<lparr>insert_error := Some e\<rparr>) query tenantId options w) =
        snd (search (ev\<lparr>insert_error := None\<rparr>) query tenantId options w) @
        [ConsoleError ''[OHMNIC SEARCH] Failed to log query:''])"
proof (intro conjI allI impI)
  show "fst (search (ev\<lparr>insert_error := Some e\<rparr>) query tenantId options w) =
     fst (search (ev\<lparr>insert_error := None\<rparr>) query tenantId options w)"
    by (subst search_with_log_outcome) (simp split: prod.splits sum.splits)
  show "logQuery (ev\<lparr>insert_error := None\<rparr>) qt tenantId n ms w =
     w @ [InsertQueryLog tenantId qt n ms]"
    by (simp add: logQuery_def)
  show "logQuery (ev\<lparr>insert_error := Some e\<rparr>) qt tenantId n ms w =
     w @ [InsertQueryLog tenantId qt n ms,
          ConsoleError ''[OHMNIC SEARCH] Failed to log query:'']"
    by (simp add: logQuery_def)
  show "snd (search (ev\<lparr>insert_error := Some e\<rparr>) query tenantId options w) =
        snd (search (ev\<lparr>insert_error := None\<rparr>) query tenantId options w) @
        [ConsoleError ''[OHMNIC SEARCH] Failed to log query:'']"
    if "fst (search (ev\<lparr>insert_error := None\<rparr>) query tenantId options w) = Inr resp" for resp
    using that by (subst search_with_log_outcome) (auto split: prod.splits sum.splits)
qed

lemma example_env_logs: "example_env\<lparr>insert_error := None\<rparr> = example_env"
  by (simp add: example_env_def)

theorem search_ignores_log_failure_witness:
  "search (example_env\<lparr>insert_error := Some (Error ''connection terminated'')\<rparr>)
     (Str ''return policy'') (Some ''t1'') fine_threshold_options [] =
   (Inr \<lparr>results = [example_result ''c-7'' 7, example_result ''c-2'' 2],
         query_text = ''return policy'', count = 2, responseTimeMs = 80\<rparr>,
    [EmbeddingsCreate (create_request (Single ''return policy'')),
     SelectChunks unit_vector (Some ''t1'') None (12451 / 100000) 5,
     InsertQueryLog (Some ''t1'') ''return policy'' 2 80,
     ConsoleError ''[OHMNIC SEARCH] Failed to log query:''])"
proof -
  let ?bad = "example_env\<lparr>insert_error := Some (Error ''connection terminated'')\<rparr>"
  let ?s = "search ?bad (Str ''return policy'') (Some ''t1'') fine_threshold_options []"
  let ?R = "\<lparr>results = [example_result ''c-7'' 7, example_result ''c-2'' 2],
         query_text = ''return policy'', count = 2, responseTimeMs = 80\<rparr>"
  note inst = search_ignores_log_failure
    [where ev = example_env and e = "Error ''connection terminated''"
       and query = "Str ''return policy''" and tenantId = "Some ''t1''"
       and options = fine_threshold_options and w = "[]", unfolded example_env_logs]
  have ok: "fst (search example_env (Str ''return policy'') (Some ''t1'')
                  fine_threshold_options []) = Inr ?R"
    by (simp add: example_search)
  have a: "fst ?s = Inr ?R" using inst [THEN conjunct1] ok by simp
  have "\<forall>resp. fst (search example_env (Str ''return policy'') (Some ''t1'')
                  fine_threshold_options []) = Inr resp \<longrightarrow>
          snd ?s = snd (search example_env (Str ''return policy'') (Some ''t1'')
                          fine_threshold_options []) @
                   [ConsoleError ''[OHMNIC SEARCH] Failed to log query:'']"
    by (rule inst [THEN conjunct2, THEN conjunct2, THEN conjunct2])
  then have b: "snd ?s = snd (search example_env (Str ''return policy'') (Some ''t1'')
                          fine_threshold_options []) @
                   [ConsoleError ''[OHMNIC SEARCH] Failed to log query:'']"
    using ok by (elim allE [where x = ?R]) simp
  show ?thesis using a b by (simp add: example_search prod_eq_iff)
qed








lemma all_at_least_rounded:
  assumes "\<forall>r\<in>set rs. \<exists>x. t \<le> x \<and> similarity r = parseFloat_toFixed 4 x"
  shows "all_at_least (parseFloat_toFixed 4 t) rs"
  using assms by (auto simp: all_at_least_def list_all_iff parseFloat_toFixed_mono)

lemma parseFloat_toFixed_exact_int:
  "parseFloat_toFixed f (of_int z / 10 ^ f) = of_int z / 10 ^ f"
proof (cases "0 \<le> z")
  case True
  then obtain n where z: "z = int n" using nonneg_int_cases by blast
  show ?thesis using parseFloat_toFixed_exact [of f n] by (simp add: z)
next
  case False
  define n where "n = nat (- z)"
  have n: "0 < n" and z: "z = - int n" using False by (simp_all add: n_def)
  let ?x = "- ((of_nat n :: rat) / 10 ^ f)"
  have x: "(of_int z :: rat) / 10 ^ f = ?x" by (simp add: z)
  have neg: "?x < 0" using n by simp
  have "\<bar>?x\<bar> * 10 ^ f = of_nat n" by simp
  moreover have "\<lfloor>(of_nat n :: rat) + 1 / 2\<rfloor> = int n"
    by (simp add: floor_unique)
  ultimately have "toFixed_units f ?x = n"
    unfolding toFixed_units_def by simp
  then have "parseFloat_toFixed f ?x = ?x"
    using neg unfolding parseFloat_toFixed_def by simp
  then show ?thesis unfolding x .
qed

lemma results_from_selection:
  assumes "rs = map row_to_result (select_chunks dop rows q tenantId docIds thr k)"
  shows "\<forall>r\<in>set rs. \<exists>row e.
           row \<in> set rows \<and> row_embedding row = Some e \<and>
           chunkId r = row_id row \<and> chunkIndex r = row_chunk_index row \<and>
           tenantId = Some (row_tenant_id row) \<and>
           thr \<le> 1 - dop e q \<and>
           similarity r = parseFloat_toFixed 4 (1 - dop e q)"
proof
  fix r
  assume rin: "r \<in> set rs"
  obtain dr where dr: "dr \<in> set (select_chunks dop rows q tenantId docIds thr k)"
      and r: "r = row_to_result dr"
    using rin unfolding assms by auto
  obtain e where e: "snd dr \<in> set rows" "row_embedding (snd dr) = Some e"
      "fst dr = dop e q" "tenantId = Some (row_tenant_id (snd dr))" "thr \<le> 1 - dop e q"
    using select_chunks_member [OF dr] by blast
  have "chunkId r = row_id (snd dr)" "chunkIndex r = row_chunk_index (snd dr)"
       "similarity r = parseFloat_toFixed 4 (1 - dop e q)"
    using e(3) by (simp_all add: r row_to_result_def Let_def)
  then show "\<exists>row e.
           row \<in> set rows \<and> row_embedding row = Some e \<and>
           chunkId r = row_id row \<and> chunkIndex r = row_chunk_index row \<and>
           tenantId = Some (row_tenant_id row) \<and>
           thr \<le> 1 - dop e q \<and>
           similarity r = parseFloat_toFixed 4 (1 - dop e q)"
    using e by blast
qed

text \<open>
  C2, as the code has it. A successful \<open>search\<close> returns at most \<open>topK\<close> results (5 when not
  given), its count is their number, and they are in descending order of the reported
  similarity. The results are built from the rows which the SELECT yields for the
  embedding of the query: each result comes from a stored row of the given tenant whose
  similarity to that embedding before rounding, \<open>1 - distance\<close>, is at least the threshold
  (0.1 when not given); the reported similarity is that value rounded to four decimals,
  so it is at least the rounded threshold, and at least the threshold itself when this
  has no more than four decimals, whatever its sign. The order among results of equal
  similarity is the one the store returned and is not determined by the chunk index.
\<close>

theorem search_results_ranked:
  "fst (search ev query tenantId options w) = Inr resp \<longrightarrow>
     length (results resp) \<le> (case topK options of None \<Rightarrow> defaultTopK | Some n \<Rightarrow> n) \<and>
     count resp = length (results resp) \<and>
     ranked (results resp) \<and>
     (\<exists>q w1. generateEmbedding ev query w = (Inr q, w1) \<and>
        results resp =
          map row_to_result
            (select_chunks (vector_distance ev) (chunk_rows ev) q tenantId (documentIds options)
               (case similarityThreshold options of
                  None \<Rightarrow> default_similarityThreshold | Some t \<Rightarrow> t)
               (case topK options of None \<Rightarrow> defaultTopK | Some n \<Rightarrow> n)) \<and>
        (\<forall>r\<in>set (results resp). \<exists>row e.
           row \<in> set (chunk_rows ev) \<and> row_embedding row = Some e \<and>
           chunkId r = row_id row \<and> chunkIndex r = row_chunk_index row \<and>
           tenantId = Some (row_tenant_id row) \<and>
           (case similarityThreshold options of
              None \<Rightarrow> default_similarityThreshold | Some t \<Rightarrow> t) \<le> 1 - vector_distance ev e q \<and>
           similarity r = parseFloat_toFixed 4 (1 - vector_distance ev e q))) \<and>
     all_at_least
       (parseFloat_toFixed 4
          (case similarityThreshold options of
             None \<Rightarrow> default_similarityThreshold | Some t \<Rightarrow> t)) (results resp) \<and>
     (\<forall>z. (case similarityThreshold options of
             None \<Rightarrow> default_similarityThreshold | Some t \<Rightarrow> t) = of_int z / 10 ^ 4 \<longrightarrow>
          all_at_least (of_int z / 10 ^ 4) (results resp))"
proof
  assume ok: "fst (search ev query tenantId options w) = Inr resp"
  let ?thr = "case similarityThreshold options of
                None \<Rightarrow> default_similarityThreshold | Some t \<Rightarrow> t"
  let ?k = "case topK options of None \<Rightarrow> defaultTopK | Some n \<Rightarrow> n"
  obtain q w1 where ge: "generateEmbedding ev query w = (Inr q, w1)"
    and res: "results resp =
      map row_to_result
        (select_chunks (vector_distance ev) (chunk_rows ev) q tenantId (documentIds options) ?thr ?k)"
    and cnt: "count resp = length (results resp)"
    using search_success [OF ok] by blast
  have len: "length (results resp) \<le> ?k"
    unfolding res by (simp add: select_chunks_length)
  have rk: "ranked (results resp)" unfolding res by (rule ranked_results)
  note rows = results_from_selection [OF res]
  have tied: "\<exists>q w1. generateEmbedding ev query w = (Inr q, w1) \<and>
        results resp =
          map row_to_result
            (select_chunks (vector_distance ev) (chunk_rows ev) q tenantId (documentIds options)
               ?thr ?k) \<and>
        (\<forall>r\<in>set (results resp). \<exists>row e.
           row \<in> set (chunk_rows ev) \<and> row_embedding row = Some e \<and>
           chunkId r = row_id row \<and> chunkIndex r = row_chunk_index row \<and>
           tenantId = Some (row_tenant_id row) \<and>
           ?thr \<le> 1 - vector_distance ev e q \<and>
           similarity r = parseFloat_toFixed 4 (1 - vector_distance ev e q))"
    using ge res rows by (intro exI conjI)
  have "\<forall>r\<in>set (results resp). \<exists>x. ?thr \<le> x \<and> similarity r = parseFloat_toFixed 4 x"
    using rows by blast
  then have al: "all_at_least (parseFloat_toFixed 4 ?thr) (results resp)"
    by (rule all_at_least_rounded)
  have ex: "\<forall>z. ?thr = of_int z / 10 ^ 4 \<longrightarrow> all_at_least (of_int z / 10 ^ 4) (results resp)"
  proof (intro allI impI)
    fix z :: int
    assume eq: "?thr = of_int z / 10 ^ 4"
    have "all_at_least (parseFloat_toFixed 4 (of_int z / 10 ^ 4)) (results resp)"
      using al unfolding eq .
    then show "all_at_least (of_int z / 10 ^ 4) (results resp)"
      unfolding parseFloat_toFixed_exact_int .
  qed
  show "length (results resp) \<le> ?k \<and> count resp = length (results resp) \<and>
     ranked (results resp) \<and>
     (\<exists>q w1. generateEmbedding ev query w = (Inr q, w1) \<and>
        results resp =
          map row_to_result
            (select_chunks (vector_distance ev) (chunk_rows ev) q tenantId (documentIds options)
               ?thr ?k) \<and>
        (\<forall>r\<in>set (results resp). \<exists>row e.
           row \<in> set (chunk_rows ev) \<and> row_embedding row = Some e \<and>
           chunkId r = row_id row \<and> chunkIndex r = row_chunk_index row \<and>
           tenantId = Some (row_tenant_id row) \<and>
           ?thr \<le> 1 - vector_distance ev e q \<and>
           similarity r = parseFloat_toFixed 4 (1 - vector_distance ev e q))) \<and>
     all_at_least (parseFloat_toFixed 4 ?thr) (results resp) \<and>
     (\<forall>z. ?thr = of_int z / 10 ^ 4 \<longrightarrow> all_at_least (of_int z / 10 ^ 4) (results resp))"
    using len cnt rk tied al ex by (intro conjI)
qed

lemma fine_threshold_rounded: "parseFloat_toFixed 4 (12451 / 100000) = 249 / 2000"
  by code_simp

theorem search_results_ranked_witness:
  "fst (search example_env (Str ''return policy'') (Some ''t1'') fine_threshold_options []) =
     Inr \<lparr>results = [example_result ''c-7'' 7, example_result ''c-2'' 2],
          query_text = ''return policy'', count = 2, responseTimeMs = 80\<rparr> \<and>
   length [example_result ''c-7'' 7, example_result ''c-2'' 2] \<le> 5 \<and>
   ranked [example_result ''c-7'' 7, example_result ''c-2'' 2] \<and>
   all_at_least (1245 / 10000) [example_result ''c-7'' 7, example_result ''c-2'' 2]"
proof -
  let ?R = "\<lparr>results = [example_result ''c-7'' 7, example_result ''c-2'' 2],
          query_text = ''return policy'', count = 2, responseTimeMs = 80\<rparr>"
  have ok: "fst (search example_env (Str ''return policy'') (Some ''t1'')
                   fine_threshold_options []) = Inr ?R"
    by (simp add: example_search)
  note concl = search_results_ranked
    [where ev = example_env and query = "Str ''return policy''" and tenantId = "Some ''t1''"
       and options = fine_threshold_options and w = "[]" and resp = ?R, THEN mp, OF ok]
  have "length (results ?R) \<le> (case topK fine_threshold_options of
                                  None \<Rightarrow> defaultTopK | Some n \<Rightarrow> n)"
    by (rule concl [THEN conjunct1])
  then have a: "length [example_result ''c-7'' 7, example_result ''c-2'' 2] \<le> 5"
    by (simp add: fine_threshold_options_def)
  have "ranked (results ?R)"
    by (rule concl [THEN conjunct2, THEN conjunct2, THEN conjunct1])
  then have b: "ranked [example_result ''c-7'' 7, example_result ''c-2'' 2]" by simp
  have "all_at_least
       (parseFloat_toFixed 4
          (case similarityThreshold fine_threshold_options of
             None \<Rightarrow> default_similarityThreshold | Some t \<Rightarrow> t)) (results ?R)"
    by (rule concl [THEN conjunct2, THEN conjunct2, THEN conjunct2, THEN conjunct2,
          THEN conjunct1])
  then have c: "all_at_least (1245 / 10000) [example_result ''c-7'' 7, example_result ''c-2'' 2]"
    by (simp add: fine_threshold_options_def fine_threshold_rounded)
  show ?thesis using ok a b c by (intro conjI)
qed

text \<open>
  The example search for tenant t1 with the threshold 0.12451 returns the two chunks of
  equal similarity with chunk index 7 before chunk index 2, and reports for both the
  similarity 0.1245, which is below the threshold.
\<close>

theorem search_tie_order_counterexample:
  "fst (search example_env (Str ''return policy'') (Some ''t1'') fine_threshold_options []) =
     Inr \<lparr>results = [example_result ''c-7'' 7, example_result ''c-2'' 2],
          query_text = ''return policy'', count = 2, responseTimeMs = 80\<rparr> \<and>
   \<not> ranked_ties_by_index [example_result ''c-7'' 7, example_result ''c-2'' 2] \<and>
   \<not> all_at_least (12451 / 100000) [example_result ''c-7'' 7, example_result ''c-2'' 2]"
  by (simp add: example_search ranked_ties_by_index_def all_at_least_def example_result_def)

end
